theory Spec2Isabelle
  imports Complex_Main
begin

section \<open>Python values and errors\<close>

text \<open>
  The plans handled by \<^verbatim>\<open>qep_processor.py\<close> are the JSON documents PostgreSQL returns
  for EXPLAIN, decoded by the database driver into Python lists and dictionaries, and the
  result of the comparison library is a Python dictionary too. Both are modelled by one
  type of Python values. A dictionary is an association list in insertion order (the
  order in which Python iterates over it); a lookup takes the first entry of a key.
  Besides strings and integers, dictionary keys can be the symbols of the comparison
  library (\<^verbatim>\<open>insert\<close>, \<^verbatim>\<open>delete\<close>, \<^verbatim>\<open>update\<close>), which are equal to no string.
  Numbers are exact rationals.
\<close>

datatype pykey = KStr string | KInt int | KSym string

datatype pyval =
    PNone
  | PBool bool
  | PNum rat
  | PStr string
  | PList "pyval list"
  | PTuple "pyval list"
  | PDict "(pykey \<times> pyval) list"

text \<open>
  Every exception the modelled code can raise is a value. \<open>SystemExit\<close> is what Python's
  \<^verbatim>\<open>quit()\<close> raises: it ends the interpreter unless it is caught, and nothing in the
  repository catches it.
\<close>

datatype error =
    TypeError
  | AttributeError
  | IndexError
  | KeyError
  | ValueError
  | SystemExit

text \<open>
  Python's \<^verbatim>\<open>x[i]\<close> for an index \<open>i\<close> that is not negative, and the slice
  \<^verbatim>\<open>x[1:-1]\<close>, on a value.
\<close>

fun py_getitem :: "pyval \<Rightarrow> nat \<Rightarrow> error + pyval" where
  "py_getitem (PList xs) i = (if i < length xs then Inr (xs ! i) else Inl IndexError)"
| "py_getitem (PTuple xs) i = (if i < length xs then Inr (xs ! i) else Inl IndexError)"
| "py_getitem (PStr s) i = (if i < length s then Inr (PStr [s ! i]) else Inl IndexError)"
| "py_getitem (PDict kvs) i =
     (case map_of kvs (KInt (int i)) of None \<Rightarrow> Inl KeyError | Some v \<Rightarrow> Inr v)"
| "py_getitem PNone i = Inl TypeError"
| "py_getitem (PBool b) i = Inl TypeError"
| "py_getitem (PNum n) i = Inl TypeError"

fun py_slice_inner :: "pyval \<Rightarrow> error + pyval" where
  "py_slice_inner (PStr s) = Inr (PStr (butlast (drop 1 s)))"
| "py_slice_inner (PList xs) = Inr (PList (butlast (drop 1 xs)))"
| "py_slice_inner (PTuple xs) = Inr (PTuple (butlast (drop 1 xs)))"
| "py_slice_inner (PDict kvs) = Inl TypeError"
| "py_slice_inner PNone = Inl TypeError"
| "py_slice_inner (PBool b) = Inl TypeError"
| "py_slice_inner (PNum n) = Inl TypeError"

section \<open>Searching the difference of two plans\<close>

text \<open>
  \<^verbatim>\<open>_findValueInNestedDict(obj, key)\<close>: when the dictionary has the key, its value is
  returned (also when that value is \<^verbatim>\<open>None\<close>); otherwise the values that are
  dictionaries are searched in order and the first result that is not \<^verbatim>\<open>None\<close> is
  returned; falling off the end of the function returns \<^verbatim>\<open>None\<close>. Values that are lists
  or tuples are not searched (\<^verbatim>\<open>isinstance(v, dict)\<close>).
\<close>

function find_in_dict :: "(pykey \<times> pyval) list \<Rightarrow> pykey \<Rightarrow> pyval"
  and find_in_items :: "(pykey \<times> pyval) list \<Rightarrow> pykey \<Rightarrow> pyval" where
  "find_in_dict kvs key =
     (case map_of kvs key of Some v \<Rightarrow> v | None \<Rightarrow> find_in_items kvs key)"
| "find_in_items [] key = PNone"
| "find_in_items ((k, v) # rest) key =
     (case v of
        PDict sub \<Rightarrow>
          (let item = find_in_dict sub key
           in if item \<noteq> PNone then item else find_in_items rest key)
      | _ \<Rightarrow> find_in_items rest key)"
  by pat_completeness auto
termination
  by (relation "measure (\<lambda>x. case x of
        Inl (kvs, key) \<Rightarrow> 2 * size_list (size_prod (\<lambda>_. 0) size) kvs + 1
      | Inr (kvs, key) \<Rightarrow> 2 * size_list (size_prod (\<lambda>_. 0) size) kvs)") auto

text \<open>
  On a value that is not a dictionary the function raises: \<^verbatim>\<open>key in obj\<close> is a
  membership test on a list or a tuple and a substring test on a string, after which
  either \<^verbatim>\<open>obj[key]\<close> (a string index) or \<^verbatim>\<open>obj.items()\<close> fails; on \<^verbatim>\<open>None\<close>, a number
  or a Boolean \<^verbatim>\<open>key in obj\<close> itself is a TypeError. Recursive calls are on
  dictionaries only.
\<close>

fun is_infix :: "string \<Rightarrow> string \<Rightarrow> bool" where
  "is_infix pat [] = (pat = [])"
| "is_infix pat (c # cs) = (take (length pat) (c # cs) = pat \<or> is_infix pat cs)"

fun findValueInNestedDict :: "pyval \<Rightarrow> string \<Rightarrow> error + pyval" where
  "findValueInNestedDict (PDict kvs) key = Inr (find_in_dict kvs (KStr key))"
| "findValueInNestedDict (PList xs) key =
     (if PStr key \<in> set xs then Inl TypeError else Inl AttributeError)"
| "findValueInNestedDict (PTuple xs) key =
     (if PStr key \<in> set xs then Inl TypeError else Inl AttributeError)"
| "findValueInNestedDict (PStr s) key =
     (if is_infix key s then Inl TypeError else Inl AttributeError)"
| "findValueInNestedDict PNone key = Inl TypeError"
| "findValueInNestedDict (PBool b) key = Inl TypeError"
| "findValueInNestedDict (PNum n) key = Inl TypeError"

section \<open>The external collaborators\<close>

text \<open>
  \<^verbatim>\<open>Postgres_Connect\<close> talks to the database. \<^verbatim>\<open>getQEP\<close> and \<^verbatim>\<open>getHistogram\<close> catch
  every exception of the driver, print it and fall off the end, so they return either the
  rows of \<^verbatim>\<open>fetchall()\<close> or \<^verbatim>\<open>None\<close> (also when there is no connection);
  \<^verbatim>\<open>getCardinality\<close> and \<^verbatim>\<open>findRelation\<close> have no handler and index the rows
  themselves, so they return a value or raise. The answers of the database are parameters
  of the model. Every call is recorded, in order, in a log that the functions below
  pass along.
\<close>

record communicator =
  getQEP :: "string \<Rightarrow> pyval"
  getHistogram :: "string \<Rightarrow> string \<Rightarrow> pyval"
  getCardinality :: "string \<Rightarrow> error + pyval"
  findRelation :: "string \<Rightarrow> error + string"

datatype db_call =
    CallGetQEP string
  | CallGetHistogram string string
  | CallGetCardinality string
  | CallFindRelation string

text \<open>
  What the code uses from outside the repository and the database: Python's \<^verbatim>\<open>str\<close> and
  \<^verbatim>\<open>float\<close> on numbers (\<open>None\<close> stands for the ValueError of \<^verbatim>\<open>float\<close>), the
  \<^verbatim>\<open>diff\<close> function of the jsondiff library (called with \<^verbatim>\<open>syntax="explicit"\<close>) and
  the result of \<^verbatim>\<open>get_var_column\<close>, which walks the token tree of the sqlparse library.
\<close>

record pylib =
  py_str :: "rat \<Rightarrow> string"
  py_float :: "string \<Rightarrow> rat option"
  diff :: "pyval \<Rightarrow> pyval \<Rightarrow> pyval"
  get_var_column :: "string \<Rightarrow> string list \<times> string list"

section \<open>Constants and string helpers\<close>

definition RESOLUTION :: nat where
  "RESOLUTION = 10"

definition PREDICATE_TOKEN :: string where
  "PREDICATE_TOKEN = '' :varies''"

text \<open>\<^verbatim>\<open>s.replace(old, new, 1)\<close>: the leftmost occurrence of \<open>old\<close> is replaced.\<close>

fun replace_first :: "string \<Rightarrow> string \<Rightarrow> string \<Rightarrow> string" where
  "replace_first [] old new = (if old = [] then new else [])"
| "replace_first (c # cs) old new =
     (if take (length old) (c # cs) = old then new @ drop (length old) (c # cs)
      else c # replace_first cs old new)"

section \<open>Plan enumeration\<close>

definition compareQEPs :: "pylib \<Rightarrow> pyval \<Rightarrow> pyval \<Rightarrow> pyval" where
  "compareQEPs L qep1 qep2 = diff L qep1 qep2"

text \<open>
  The inner loop of both enumerators: the plans found so far are compared with the new
  plan in order, and the loop breaks at the first one whose difference holds no
  \<^verbatim>\<open>"Node Type"\<close>. The result is the plan number appended at the break (\<open>i + 1\<close>), or
  \<open>None\<close> when the loop ends with \<^verbatim>\<open>bAddQEPFlag\<close> still set.
\<close>

fun find_similar :: "pylib \<Rightarrow> pyval list \<Rightarrow> pyval \<Rightarrow> nat \<Rightarrow> error + nat option" where
  "find_similar L [] qep i = Inr None"
| "find_similar L (existingQEP # rest) qep i =
     (case findValueInNestedDict (compareQEPs L existingQEP qep) ''Node Type'' of
        Inl e \<Rightarrow> Inl e
      | Inr bIsDifferentPlan \<Rightarrow>
          if bIsDifferentPlan = PNone then Inr (Some (i + 1))
          else find_similar L rest qep (i + 1))"

text \<open>
  The body of the loops after the plan has arrived; \<open>first\<close> is the test
  \<^verbatim>\<open>index == 0\<close> (one dimension) or \<^verbatim>\<open>index == 0 and index2 == 0\<close> (two dimensions).
\<close>

definition assign_plan ::
  "pylib \<Rightarrow> bool \<Rightarrow> nat list \<times> pyval list \<Rightarrow> pyval \<Rightarrow> error + (nat list \<times> pyval list)" where
  "assign_plan L first st qep =
     (case st of (planIndexes, lstAllQEPs) \<Rightarrow>
        if first then Inr (planIndexes @ [1], lstAllQEPs @ [qep])
        else (case find_similar L lstAllQEPs qep 0 of
                Inl e \<Rightarrow> Inl e
              | Inr (Some k) \<Rightarrow> Inr (planIndexes @ [k], lstAllQEPs)
              | Inr None \<Rightarrow>
                  Inr (planIndexes @ [length (lstAllQEPs @ [qep])], lstAllQEPs @ [qep])))"

text \<open>\<^verbatim>\<open>objCommunicator.getQEP(query)[0][0]\<close>\<close>

definition fetch_qep :: "communicator \<Rightarrow> string \<Rightarrow> error + pyval" where
  "fetch_qep C query =
     (case py_getitem (getQEP C query) 0 of
        Inl e \<Rightarrow> Inl e
      | Inr row \<Rightarrow> py_getitem row 0)"

text \<open>
  \<^verbatim>\<open>_retrieveQEPs_OneDimension\<close>: the loop over the selectivity values, from the
  pristine template at every iteration. The progress messages are not modelled.
\<close>

fun retrieve_loop_1D ::
  "pylib \<Rightarrow> communicator \<Rightarrow> string \<Rightarrow> rat list \<Rightarrow> nat \<Rightarrow> nat list \<times> pyval list \<Rightarrow>
   db_call list \<Rightarrow> db_call list \<times> (error + (nat list \<times> pyval list))" where
  "retrieve_loop_1D L C query [] index st calls = (calls, Inr st)"
| "retrieve_loop_1D L C query (selectivityValue # rest) index st calls =
     (let q = replace_first query PREDICATE_TOKEN (''<= '' @ py_str L selectivityValue);
          calls' = calls @ [CallGetQEP q]
      in case fetch_qep C q of
           Inl e \<Rightarrow> (calls', Inl e)
         | Inr qep \<Rightarrow>
             (case assign_plan L (index = 0) st qep of
                Inl e \<Rightarrow> (calls', Inl e)
              | Inr st' \<Rightarrow> retrieve_loop_1D L C query rest (index + 1) st' calls'))"

definition retrieveQEPs_OneDimension ::
  "pylib \<Rightarrow> communicator \<Rightarrow> string \<Rightarrow> rat list \<Rightarrow>
   db_call list \<times> (error + (nat list \<times> pyval list))" where
  "retrieveQEPs_OneDimension L C query lstSelValsDimension01 =
     retrieve_loop_1D L C query lstSelValsDimension01 0 ([], []) []"

text \<open>
  \<^verbatim>\<open>_retrieveQEPs_TwoDimensions\<close>: the inner loop over the second dimension and the
  outer loop over the first; the first token is replaced by the value of the first
  dimension, the next one by the value of the second.
\<close>

fun retrieve_inner_2D ::
  "pylib \<Rightarrow> communicator \<Rightarrow> string \<Rightarrow> rat \<Rightarrow> rat list \<Rightarrow> nat \<Rightarrow> nat \<Rightarrow>
   nat list \<times> pyval list \<Rightarrow> db_call list \<Rightarrow>
   db_call list \<times> (error + (nat list \<times> pyval list))" where
  "retrieve_inner_2D L C query selectivityValue [] index index2 st calls = (calls, Inr st)"
| "retrieve_inner_2D L C query selectivityValue (selectivityValue2 # rest) index index2 st calls =
     (let q1 = replace_first query PREDICATE_TOKEN (''<= '' @ py_str L selectivityValue);
          q = replace_first q1 PREDICATE_TOKEN (''<= '' @ py_str L selectivityValue2);
          calls' = calls @ [CallGetQEP q]
      in case fetch_qep C q of
           Inl e \<Rightarrow> (calls', Inl e)
         | Inr qep \<Rightarrow>
             (case assign_plan L (index = 0 \<and> index2 = 0) st qep of
                Inl e \<Rightarrow> (calls', Inl e)
              | Inr st' \<Rightarrow>
                  retrieve_inner_2D L C query selectivityValue rest index (index2 + 1) st' calls'))"

fun retrieve_outer_2D ::
  "pylib \<Rightarrow> communicator \<Rightarrow> string \<Rightarrow> rat list \<Rightarrow> rat list \<Rightarrow> nat \<Rightarrow>
   nat list \<times> pyval list \<Rightarrow> db_call list \<Rightarrow>
   db_call list \<times> (error + (nat list \<times> pyval list))" where
  "retrieve_outer_2D L C query [] lstSelValsDimension02 index st calls = (calls, Inr st)"
| "retrieve_outer_2D L C query (selectivityValue # rest) lstSelValsDimension02 index st calls =
     (case retrieve_inner_2D L C query selectivityValue lstSelValsDimension02 index 0 st calls of
        (calls', Inl e) \<Rightarrow> (calls', Inl e)
      | (calls', Inr st') \<Rightarrow>
          retrieve_outer_2D L C query rest lstSelValsDimension02 (index + 1) st' calls')"

definition retrieveQEPs_TwoDimensions ::
  "pylib \<Rightarrow> communicator \<Rightarrow> string \<Rightarrow> rat list \<Rightarrow> rat list \<Rightarrow>
   db_call list \<times> (error + (nat list \<times> pyval list))" where
  "retrieveQEPs_TwoDimensions L C query lstSelValsDimension01 lstSelValsDimension02 =
     retrieve_outer_2D L C query lstSelValsDimension01 lstSelValsDimension02 0 ([], []) []"

section \<open>The enumeration as the specification words it\<close>

text \<open>
  Two plans are judged equivalent when the search of their difference for
  \<^verbatim>\<open>"Node Type"\<close> returns \<^verbatim>\<open>None\<close>.
\<close>

definition judged_equivalent :: "pylib \<Rightarrow> pyval \<Rightarrow> pyval \<Rightarrow> bool" where
  "judged_equivalent L existingQEP qep \<longleftrightarrow>
     findValueInNestedDict (compareQEPs L existingQEP qep) ''Node Type'' = Inr PNone"

text \<open>
  The specification of the enumerator: the first sampled point seeds the set of distinct
  plans and gets index 1; every later point gets the index of the first member, in
  insertion order, that is judged equivalent to its plan, and when there is none its plan
  is appended and the point gets the new index.
\<close>

primrec first_equivalent :: "(pyval \<Rightarrow> pyval \<Rightarrow> bool) \<Rightarrow> pyval list \<Rightarrow> pyval \<Rightarrow> nat option" where
  "first_equivalent eqv [] q = None"
| "first_equivalent eqv (p # ps) q =
     (if eqv p q then Some 0 else map_option Suc (first_equivalent eqv ps q))"

definition spec_assign ::
  "(pyval \<Rightarrow> pyval \<Rightarrow> bool) \<Rightarrow> nat list \<times> pyval list \<Rightarrow> pyval \<Rightarrow> nat list \<times> pyval list" where
  "spec_assign eqv st q =
     (case st of (grid, members) \<Rightarrow>
        (case first_equivalent eqv members q of
           Some i \<Rightarrow> (grid @ [i + 1], members)
         | None \<Rightarrow> (grid @ [length members + 1], members @ [q])))"

fun spec_enumerate :: "(pyval \<Rightarrow> pyval \<Rightarrow> bool) \<Rightarrow> pyval list \<Rightarrow> nat list \<times> pyval list" where
  "spec_enumerate eqv [] = ([], [])"
| "spec_enumerate eqv (q # qs) = foldl (spec_assign eqv) ([1], [q]) qs"

text \<open>The query text sent for a grid point.\<close>

definition point_query_1D :: "pylib \<Rightarrow> string \<Rightarrow> rat \<Rightarrow> string" where
  "point_query_1D L query v = replace_first query PREDICATE_TOKEN (''<= '' @ py_str L v)"

definition point_query_2D :: "pylib \<Rightarrow> string \<Rightarrow> rat \<times> rat \<Rightarrow> string" where
  "point_query_2D L query p =
     replace_first (replace_first query PREDICATE_TOKEN (''<= '' @ py_str L (fst p)))
       PREDICATE_TOKEN (''<= '' @ py_str L (snd p))"

section \<open>A small database for the examples\<close>

text \<open>
  An engine that answers the query with both thresholds at 1.0 by an index scan and every
  other query by a sequential scan, with the answers of the comparison library on these
  two plans: an empty dictionary for equal plans, and an update of the operator of the
  root otherwise.
\<close>
definition example_qep :: "string \<Rightarrow> pyval" where
  "example_qep kind = PList [PDict [(KStr ''Plan'', PDict [(KStr ''Node Type'', PStr kind)])]]"

definition example_diff :: "pyval \<Rightarrow> pyval \<Rightarrow> pyval" where
  "example_diff a b =
     (if a = b then PDict []
      else PDict [(KInt 0, PDict [(KSym ''update'', PDict [(KStr ''Plan'',
             PDict [(KSym ''update'', PDict [(KStr ''Node Type'', PStr ''Seq Scan'')])])])])])"

definition example_lib :: pylib where
  "example_lib =
     \<lparr> py_str = (\<lambda>r. if r = 1 then ''1.0'' else ''25.0''),
       py_float = (\<lambda>s. None),
       diff = example_diff,
       get_var_column = (\<lambda>q. ([], [])) \<rparr>"

definition example_engine :: communicator where
  "example_engine =
     \<lparr> getQEP = (\<lambda>q. if q = ''SELECT a FROM t WHERE a<= 1.0'' \<or>
                           q = ''SELECT a FROM t WHERE a<= 1.0 AND b<= 1.0''
                        then PList [PTuple [example_qep ''Index Scan'']]
                        else PList [PTuple [example_qep ''Seq Scan'']]),
       getHistogram = (\<lambda>t a. PNone),
       getCardinality = (\<lambda>t. Inl IndexError),
       findRelation = (\<lambda>a. Inl IndexError) \<rparr>"

section \<open>The plan tree model\<close>

text \<open>
  \<^verbatim>\<open>query_plan_visualizer.py\<close> works on one plan node at a time: a dictionary with the
  operator kind (\<^verbatim>\<open>'Node Type'\<close>), the accumulated cost (\<^verbatim>\<open>'Total Cost'\<close>) and the
  children (\<^verbatim>\<open>'Plans'\<close>, absent or empty on a leaf), to which \<^verbatim>\<open>_generate_ids_and_cost\<close>
  adds the keys \<^verbatim>\<open>'id'\<close> and \<^verbatim>\<open>'cost'\<close>. A node is modelled with these five entries;
  \<open>None\<close> in the last two says that the key is absent. The other keys of a node are not
  read or written by the function. Costs are exact rationals.
\<close>

datatype plan =
  Plan (node_type: string) (total_cost: rat) (plan_id: "string option")
       (own_cost: "rat option") (plans: "plan list")

text \<open>
  The class \<^verbatim>\<open>Cost\<close>: \<^verbatim>\<open>x = max(x, 0)\<close>, then \<^verbatim>\<open>round(x, 2)\<close>. Python rounds the
  exact value of its argument to the nearest multiple of 0.01, a tie to the even one.
\<close>

definition py_round2 :: "rat \<Rightarrow> rat" where
  "py_round2 x =
     (let y = x * 100; f = \<lfloor>y\<rfloor>; d = y - of_int f
      in of_int (if d < 1 / 2 then f else if 1 / 2 < d then f + 1
                 else if even f then f else f + 1) / 100)"

definition Cost :: "rat \<Rightarrow> rat" where
  "Cost x = py_round2 (max x 0)"

text \<open>
  \<^verbatim>\<open>"{}_{}".format(name, k)\<close>: the name, an underscore and the decimal digits of the
  counter.
\<close>

definition digit_char :: "nat \<Rightarrow> char" where
  "digit_char d =
     (if d = 0 then CHR ''0'' else if d = 1 then CHR ''1'' else if d = 2 then CHR ''2''
      else if d = 3 then CHR ''3'' else if d = 4 then CHR ''4'' else if d = 5 then CHR ''5''
      else if d = 6 then CHR ''6'' else if d = 7 then CHR ''7'' else if d = 8 then CHR ''8''
      else CHR ''9'')"

fun str_of_nat :: "nat \<Rightarrow> string" where
  "str_of_nat n =
     (if n < 10 then [digit_char n] else str_of_nat (n div 10) @ [digit_char (n mod 10)])"


definition format_id :: "string \<Rightarrow> nat \<Rightarrow> string" where
  "format_id name k = name @ ''_'' @ str_of_nat k"

text \<open>
  \<^verbatim>\<open>_generate_ids_and_cost\<close>: the identifier is assigned and the counter of the kind
  incremented before the children are visited; the loop over the children passes the
  counters on and adds up \<^verbatim>\<open>Cost(child_plan.get('Total Cost'))\<close>. The dictionary of
  counters is returned with the annotated node, since the recursive calls share it.
\<close>

fun generate_ids_and_cost :: "plan \<Rightarrow> (string \<rightharpoonup> nat) \<Rightarrow> plan \<times> (string \<rightharpoonup> nat)"
  and generate_children ::
    "plan list \<Rightarrow> (string \<rightharpoonup> nat) \<Rightarrow> rat \<Rightarrow> plan list \<times> (string \<rightharpoonup> nat) \<times> rat" where
  "generate_ids_and_cost (Plan current_plan_name total_c old_id old_cost children_plans) name_counter =
     (let current_name_increment = (case name_counter current_plan_name of None \<Rightarrow> 1 | Some k \<Rightarrow> k);
          new_id = format_id current_plan_name current_name_increment;
          name_counter1 = name_counter(current_plan_name \<mapsto> current_name_increment + 1)
      in case generate_children children_plans name_counter1 0 of
           (children', name_counter2, children_costs) \<Rightarrow>
             (Plan current_plan_name total_c (Some new_id) (Some (Cost (total_c - children_costs)))
                children', name_counter2))"
| "generate_children [] name_counter children_costs = ([], name_counter, children_costs)"
| "generate_children (child_plan # rest) name_counter children_costs =
     (case generate_ids_and_cost child_plan name_counter of
        (child', name_counter1) \<Rightarrow>
          (case generate_children rest name_counter1
                  (children_costs + Cost (total_cost child')) of
             (rest', name_counter2, children_costs2) \<Rightarrow>
               (child' # rest', name_counter2, children_costs2)))"

text \<open>The nodes of a plan in pre-order.\<close>

fun preorder :: "plan \<Rightarrow> plan list" where
  "preorder (Plan n t i c ch) = Plan n t i c ch # concat (map preorder ch)"


text \<open>A plan without the two derived entries.\<close>

fun erase :: "plan \<Rightarrow> plan" where
  "erase (Plan n t i c ch) = Plan n t None None (map erase ch)"

text \<open>
  The specification of the identifiers: the nodes in pre-order, each kind numbered from 1
  in the order of its occurrences. \<open>counter_of seen\<close> is the dictionary of counters
  after the kinds \<open>seen\<close> have been numbered.
\<close>

definition counter_of :: "string list \<Rightarrow> (string \<rightharpoonup> nat)" where
  "counter_of seen k = (if k \<in> set seen then Some (count_list seen k + 1) else None)"

fun number_kinds :: "string list \<Rightarrow> string list \<Rightarrow> string list" where
  "number_kinds seen [] = []"
| "number_kinds seen (k # ks) =
     format_id k (count_list seen k + 1) # number_kinds (seen @ [k]) ks"

text \<open>The own cost of a node, from its total cost and the total costs of its children.\<close>

definition cost_rule :: "plan \<Rightarrow> bool" where
  "cost_rule n \<longleftrightarrow>
     own_cost n = Some (Cost (total_cost n - sum_list (map (\<lambda>c. Cost (total_cost c)) (plans n))))"


text \<open>A cost as PostgreSQL prints it: not negative, with two decimals.\<close>

definition is_cents :: "rat \<Rightarrow> bool" where
  "is_cents t \<longleftrightarrow> 0 \<le> t \<and> of_int \<lfloor>t * 100\<rfloor> = t * 100"

text \<open>A plan with a grandchild and two nodes of the same kind.\<close>

definition example_tree :: plan where
  "example_tree =
     Plan ''Sort'' 100 None None
       [Plan ''Hash Join'' 80 None None
          [Plan ''Seq Scan'' 50 None None [],
           Plan ''Hash'' (49 / 4) None None [Plan ''Seq Scan'' (49 / 4) None None []]]]"

section \<open>More string helpers\<close>

text \<open>\<^verbatim>\<open>s.split(sep)\<close> for a separator of one character.\<close>

fun cons_to_head :: "char \<Rightarrow> string list \<Rightarrow> string list" where
  "cons_to_head c [] = [[c]]"
| "cons_to_head c (w # ws) = (c # w) # ws"

fun py_split :: "char \<Rightarrow> string \<Rightarrow> string list" where
  "py_split sep [] = [[]]"
| "py_split sep (c # cs) =
     (if c = sep then [] # py_split sep cs else cons_to_head c (py_split sep cs))"

text \<open>\<^verbatim>\<open>xs[::step]\<close> for a positive step: the entries at the indices 0, step, 2 step, ...\<close>

fun every_nth :: "nat \<Rightarrow> 'a list \<Rightarrow> 'a list" where
  "every_nth step [] = []"
| "every_nth step (x # xs) = x # every_nth step (drop (step - 1) xs)"

text \<open>
  \<^verbatim>\<open>s.replace(old, new)\<close>: every occurrence, from the left, without overlaps; for an
  empty \<open>old\<close>, \<open>new\<close> is put before every character and at the end.
\<close>

function py_replace :: "string \<Rightarrow> string \<Rightarrow> string \<Rightarrow> string" where
  "py_replace s old new =
     (if old = [] then new @ concat (map (\<lambda>c. c # new) s)
      else if s = [] then []
      else if take (length old) s = old then new @ py_replace (drop (length old) s) old new
      else hd s # py_replace (tl s) old new)"
  by pat_completeness auto
termination
  by (relation "measure (\<lambda>(s, old, new). length s)") (auto simp: Suc_le_eq)

declare py_replace.simps [simp del]

text \<open>\<^verbatim>\<open>s.strip()\<close> on ASCII text: white space is removed at both ends.\<close>

definition is_space :: "char \<Rightarrow> bool" where
  "is_space c \<longleftrightarrow> (let n = (of_char c :: nat) in (9 \<le> n \<and> n \<le> 13) \<or> (28 \<le> n \<and> n \<le> 32))"

definition py_strip :: "string \<Rightarrow> string" where
  "py_strip s = rev (dropWhile is_space (rev (dropWhile is_space s)))"

text \<open>
  \<^verbatim>\<open>re.split("<|<=|>|>=|!=", clause)\<close>: at every position the alternatives are tried in
  order, so \<^verbatim>\<open><\<close> and \<^verbatim>\<open>>\<close> match alone (an \<^verbatim>\<open>=\<close> after them stays in the next
  piece) and \<^verbatim>\<open>!=\<close> matches as a whole.
\<close>

fun re_split_ops :: "string \<Rightarrow> string list" where
  "re_split_ops [] = [[]]"
| "re_split_ops (c # cs) =
     (if c = CHR ''<'' \<or> c = CHR ''>'' then [] # re_split_ops cs
      else if c = CHR ''!'' \<and> take 1 cs = ''='' then [] # re_split_ops (drop 1 cs)
      else cons_to_head c (re_split_ops cs))"

text \<open>\<^verbatim>\<open>re.sub('[^A-Za-z0-9.-]+', '', s)\<close>: the characters outside the class are removed.\<close>

definition is_kept :: "char \<Rightarrow> bool" where
  "is_kept c \<longleftrightarrow>
     (let n = (of_char c :: nat)
      in (65 \<le> n \<and> n \<le> 90) \<or> (97 \<le> n \<and> n \<le> 122) \<or> (48 \<le> n \<and> n \<le> 57) \<or>
         c = CHR ''.'' \<or> c = CHR ''-'')"

definition re_sub_other :: "string \<Rightarrow> string" where
  "re_sub_other s = filter is_kept s"


section \<open>The selectivity sampler\<close>

text \<open>
  \<^verbatim>\<open>_readHistogram\<close>: the first row of the statistics holds the histogram bounds and the
  most common values as text in braces and the frequencies as a list; the three are
  sliced with \<^verbatim>\<open>[1:-1]\<close> (a \<^verbatim>\<open>None\<close> column raises), although only the bounds are
  used afterwards. Every \<^verbatim>\<open>step\<close>-th bound is converted with \<^verbatim>\<open>float\<close>, twice: the
  list \<^verbatim>\<open>histogramNextValues\<close> is built from the same slice as \<^verbatim>\<open>histogramValues\<close>.
  The second result of the function, \<^verbatim>\<open>predicateValues\<close>, is a floating-point
  accumulation that no caller uses; it is not modelled.
\<close>

fun float_all :: "pylib \<Rightarrow> string list \<Rightarrow> error + rat list" where
  "float_all L [] = Inr []"
| "float_all L (item # items) =
     (case py_float L item of
        None \<Rightarrow> Inl ValueError
      | Some x \<Rightarrow> (case float_all L items of Inl e \<Rightarrow> Inl e | Inr xs \<Rightarrow> Inr (x # xs)))"

definition histogram_bounds :: "pyval \<Rightarrow> error + string list" where
  "histogram_bounds histogram =
     (case py_getitem histogram 0 of
        Inl e \<Rightarrow> Inl e
      | Inr row \<Rightarrow>
         (case py_getitem row 0 of
            Inl e \<Rightarrow> Inl e
          | Inr col0 \<Rightarrow>
             (case py_slice_inner col0 of
                Inl e \<Rightarrow> Inl e
              | Inr (PStr szHistogramValues) \<Rightarrow> Inr (py_split CHR '','' szHistogramValues)
              | Inr _ \<Rightarrow> Inl AttributeError)))"

definition most_common_values :: "pyval \<Rightarrow> error + string list" where
  "most_common_values histogram =
     (case py_getitem histogram 0 of
        Inl e \<Rightarrow> Inl e
      | Inr row \<Rightarrow>
         (case py_getitem row 1 of
            Inl e \<Rightarrow> Inl e
          | Inr col1 \<Rightarrow>
             (case py_slice_inner col1 of
                Inl e \<Rightarrow> Inl e
              | Inr (PStr szMostCommonValues) \<Rightarrow> Inr (py_split CHR '','' szMostCommonValues)
              | Inr _ \<Rightarrow> Inl AttributeError)))"

definition frequency_values :: "pyval \<Rightarrow> error + pyval" where
  "frequency_values histogram =
     (case py_getitem histogram 0 of
        Inl e \<Rightarrow> Inl e
      | Inr row \<Rightarrow>
         (case py_getitem row 2 of
            Inl e \<Rightarrow> Inl e
          | Inr col2 \<Rightarrow> py_slice_inner col2))"

definition readHistogram :: "pylib \<Rightarrow> pyval \<Rightarrow> error + rat list" where
  "readHistogram L histogram =
     (case histogram_bounds histogram of
        Inl e \<Rightarrow> Inl e
      | Inr lstHistogramValues \<Rightarrow>
         (case most_common_values histogram of
            Inl e \<Rightarrow> Inl e
          | Inr lstMCV \<Rightarrow>
             (case frequency_values histogram of
                Inl e \<Rightarrow> Inl e
              | Inr lstFreqValues \<Rightarrow>
                 (let step = 100 div RESOLUTION + 1
                  in case float_all L (every_nth step lstHistogramValues) of
                       Inl e \<Rightarrow> Inl e
                     | Inr histogramValues \<Rightarrow>
                        (case float_all L (every_nth step lstHistogramValues) of
                           Inl e \<Rightarrow> Inl e
                         | Inr histogramNextValues \<Rightarrow>
                            Inr (map (\<lambda>(lowerBound, upperBound).
                                       ((upperBound - lowerBound) * (1 / 2)) + lowerBound)
                                   (zip histogramValues histogramNextValues)))))))"

text \<open>
  \<^verbatim>\<open>_generatePredicateValues\<close>: for every attribute, in order, the relation, the
  histogram and the cardinality are fetched and the histogram is read; then the values go
  to the first dimension (index 0) or the second (index 1), and at any later index the
  function prints a message and calls \<^verbatim>\<open>quit()\<close>. A second dimension that stayed empty
  is returned as \<^verbatim>\<open>None\<close>.
\<close>

definition sample_attribute ::
  "pylib \<Rightarrow> communicator \<Rightarrow> string \<Rightarrow> db_call list \<Rightarrow> db_call list \<times> (error + rat list)" where
  "sample_attribute L C attribute calls =
     (let calls1 = calls @ [CallFindRelation attribute]
      in case findRelation C attribute of
           Inl e \<Rightarrow> (calls1, Inl e)
         | Inr schema \<Rightarrow>
            (let calls2 = calls1 @ [CallGetHistogram schema attribute];
                 histogram = getHistogram C schema attribute;
                 calls3 = calls2 @ [CallGetCardinality schema]
             in case getCardinality C schema of
                  Inl e \<Rightarrow> (calls3, Inl e)
                | Inr cardinality \<Rightarrow> (calls3, readHistogram L histogram)))"

fun predicate_values_loop ::
  "pylib \<Rightarrow> communicator \<Rightarrow> string list \<Rightarrow> nat \<Rightarrow> rat list \<times> rat list \<Rightarrow> db_call list \<Rightarrow>
   db_call list \<times> (error + (rat list \<times> rat list))" where
  "predicate_values_loop L C [] index dims calls = (calls, Inr dims)"
| "predicate_values_loop L C (attribute # rest) index (lstSelValsDimension01, lstSelValsDimension02) calls =
     (case sample_attribute L C attribute calls of
        (calls', Inl e) \<Rightarrow> (calls', Inl e)
      | (calls', Inr selVals) \<Rightarrow>
          if index = 0 then
            predicate_values_loop L C rest (index + 1)
              (lstSelValsDimension01 @ selVals, lstSelValsDimension02) calls'
          else if index = 1 then
            predicate_values_loop L C rest (index + 1)
              (lstSelValsDimension01, lstSelValsDimension02 @ selVals) calls'
          else (calls', Inl SystemExit))"

definition generatePredicateValues ::
  "pylib \<Rightarrow> communicator \<Rightarrow> string list \<Rightarrow>
   db_call list \<times> (error + (rat list \<times> rat list option))" where
  "generatePredicateValues L C lstPredicateAttributes =
     (case predicate_values_loop L C lstPredicateAttributes 0 ([], []) [] of
        (calls', Inl e) \<Rightarrow> (calls', Inl e)
      | (calls', Inr (lstSelValsDimension01, lstSelValsDimension02)) \<Rightarrow>
          (calls', Inr (lstSelValsDimension01,
             if length lstSelValsDimension02 = 0 then None else Some lstSelValsDimension02)))"

section \<open>The query templater\<close>

text \<open>
  \<^verbatim>\<open>_convertToQueryTemplate\<close>. The first loop drops every clause whose second piece,
  reduced to letters, digits, dots and dashes, is not accepted by \<^verbatim>\<open>float\<close>, and with it
  the attributes equal to the stripped first piece of the clause. The second loop cuts
  every remaining attribute after its last dot. An empty list of attributes is the error
  result. The last loop replaces the \<open>index\<close>-th remaining clause by the \<open>index\<close>-th
  attribute and the token.
\<close>

datatype convert_result = RET_CONVERT_QUERY_ERR | RET_CONVERT_QUERY_OK "string list" string

fun filter_clauses ::
  "pylib \<Rightarrow> string list \<Rightarrow> string list \<times> string list \<Rightarrow> error + (string list \<times> string list)" where
  "filter_clauses L [] acc = Inr acc"
| "filter_clauses L (clause # rest) (lstClausesToBeRemoved, lstPredicateAttributes) =
     (let lstCondAndPred = re_split_ops clause
      in if length lstCondAndPred < 2 then Inl IndexError
         else (let testPredicate = re_sub_other (lstCondAndPred ! 1)
               in case py_float L testPredicate of
                    Some fVal \<Rightarrow>
                      filter_clauses L rest (lstClausesToBeRemoved, lstPredicateAttributes)
                  | None \<Rightarrow>
                      filter_clauses L rest
                        (lstClausesToBeRemoved @ [clause],
                         filter (\<lambda>value. value \<noteq> py_strip (lstCondAndPred ! 0))
                           lstPredicateAttributes)))"

definition strip_qualifier :: "string \<Rightarrow> string" where
  "strip_qualifier attribute =
     (if CHR ''.'' \<in> set attribute then last (py_split CHR ''.'' attribute) else attribute)"

fun replace_clauses :: "string \<Rightarrow> string list \<Rightarrow> string list \<Rightarrow> nat \<Rightarrow> error + string" where
  "replace_clauses query [] lstPredicateAttributes index = Inr query"
| "replace_clauses query (clause # rest) lstPredicateAttributes index =
     (if index < length lstPredicateAttributes
      then replace_clauses
             (py_replace query clause ((lstPredicateAttributes ! index) @ PREDICATE_TOKEN))
             rest lstPredicateAttributes (index + 1)
      else Inl IndexError)"

definition convertToQueryTemplate :: "pylib \<Rightarrow> string \<Rightarrow> error + convert_result" where
  "convertToQueryTemplate L query =
     (case get_var_column L query of (lstPredicateAttributes0, clauses_list0) \<Rightarrow>
        (case filter_clauses L clauses_list0 ([], lstPredicateAttributes0) of
           Inl e \<Rightarrow> Inl e
         | Inr (lstClausesToBeRemoved, lstPredicateAttributes1) \<Rightarrow>
            (let clauses_list = filter (\<lambda>x. x \<notin> set lstClausesToBeRemoved) clauses_list0;
                 lstPredicateAttributes = map strip_qualifier lstPredicateAttributes1
             in if length lstPredicateAttributes = 0 then Inr RET_CONVERT_QUERY_ERR
                else (case replace_clauses query clauses_list lstPredicateAttributes 0 of
                        Inl e \<Rightarrow> Inl e
                      | Inr templateQuery \<Rightarrow>
                          Inr (RET_CONVERT_QUERY_OK lstPredicateAttributes templateQuery)))))"

section \<open>The top level\<close>

datatype process_result =
    ConvertQueryErr
  | AllQEPs "pyval list" "string list" "nat list"

text \<open>
  \<^verbatim>\<open>processQuery\<close>: the template, the selectivity values, then the enumeration in one
  or two dimensions. The log of the result lists the calls of the sampler followed by
  those of the enumerator.
\<close>

definition processQuery ::
  "pylib \<Rightarrow> communicator \<Rightarrow> string \<Rightarrow> db_call list \<times> (error + process_result)" where
  "processQuery L C query =
     (case convertToQueryTemplate L query of
        Inl e \<Rightarrow> ([], Inl e)
      | Inr RET_CONVERT_QUERY_ERR \<Rightarrow> ([], Inr ConvertQueryErr)
      | Inr (RET_CONVERT_QUERY_OK lstPredicateAttributes templateQuery) \<Rightarrow>
         (case generatePredicateValues L C lstPredicateAttributes of
            (calls, Inl e) \<Rightarrow> (calls, Inl e)
          | (calls, Inr (lstSelValsDimension01, lstSelValsDimension02)) \<Rightarrow>
             (case (case lstSelValsDimension02 of
                      None \<Rightarrow>
                        retrieveQEPs_OneDimension L C templateQuery lstSelValsDimension01
                    | Some dim2 \<Rightarrow>
                        retrieveQEPs_TwoDimensions L C templateQuery lstSelValsDimension01 dim2) of
                (calls', Inl e) \<Rightarrow> (calls @ calls', Inl e)
              | (calls', Inr (selectivityMap, lstAllQEPs)) \<Rightarrow>
                  (calls @ calls',
                   Inr (AllQEPs lstAllQEPs lstPredicateAttributes selectivityMap)))))"

section \<open>The selectivity range synthesizer\<close>

text \<open>
  \<^verbatim>\<open>_convert2DArray\<close>: the list cut into rows of \<open>nElementsInList\<close> entries (the last
  row may be shorter); a step of 0 is the ValueError of \<^verbatim>\<open>range\<close>.
\<close>

function chunks :: "nat \<Rightarrow> 'a list \<Rightarrow> 'a list list" where
  "chunks n xs = (if n = 0 \<or> xs = [] then [] else take n xs # chunks n (drop n xs))"
  by pat_completeness auto
termination
  by (relation "measure (\<lambda>(n, xs). length xs)") auto

declare chunks.simps [simp del]

definition convert2DArray :: "'a list \<Rightarrow> nat \<Rightarrow> error + 'a list list" where
  "convert2DArray lstOrigList nElementsInList =
     (if nElementsInList = 0 then Inl ValueError else Inr (chunks nElementsInList lstOrigList))"

text \<open>The triples \<open>(plan index, row, column)\<close> of the matrix, row by row.\<close>

definition selectivity_tuples :: "nat list list \<Rightarrow> (nat \<times> nat \<times> nat) list" where
  "selectivity_tuples planIndexes =
     concat (map (\<lambda>(rowIndex, row). map (\<lambda>(colIndex, col). (col, rowIndex, colIndex))
                    (zip [0..<length row] row))
               (zip [0..<length planIndexes] planIndexes))"

text \<open>
  \<^verbatim>\<open>_splitListOfTuplesByKey\<close>: a dictionary from the first component to the triples that
  have it, the keys in the order of their first occurrence.
\<close>

fun dict_add :: "(nat \<times> 'a list) list \<Rightarrow> nat \<Rightarrow> 'a \<Rightarrow> (nat \<times> 'a list) list" where
  "dict_add [] key item = [(key, [item])]"
| "dict_add ((k, items) # rest) key item =
     (if k = key then (k, items @ [item]) # rest else (k, items) # dict_add rest key item)"

definition splitListOfTuplesByKey ::
  "(nat \<times> nat \<times> nat) list \<Rightarrow> (nat \<times> (nat \<times> nat \<times> nat) list) list" where
  "splitListOfTuplesByKey items = foldl (\<lambda>result item. dict_add result (fst item) item) [] items"

text \<open>
  Python's \<^verbatim>\<open>min\<close> and \<^verbatim>\<open>max\<close> on a list of triples compare the triples
  lexicographically: the plan index first, then the row, then the column. On an empty
  list they raise ValueError.
\<close>

definition tuple_less :: "nat \<times> nat \<times> nat \<Rightarrow> nat \<times> nat \<times> nat \<Rightarrow> bool" where
  "tuple_less a b \<longleftrightarrow>
     fst a < fst b \<or>
     (fst a = fst b \<and>
      (fst (snd a) < fst (snd b) \<or> (fst (snd a) = fst (snd b) \<and> snd (snd a) < snd (snd b))))"

fun py_min :: "(nat \<times> nat \<times> nat) list \<Rightarrow> error + (nat \<times> nat \<times> nat)" where
  "py_min [] = Inl ValueError"
| "py_min (x # xs) = Inr (foldl (\<lambda>m y. if tuple_less y m then y else m) x xs)"

fun py_max :: "(nat \<times> nat \<times> nat) list \<Rightarrow> error + (nat \<times> nat \<times> nat)" where
  "py_max [] = Inl ValueError"
| "py_max (x # xs) = Inr (foldl (\<lambda>m y. if tuple_less m y then y else m) x xs)"

text \<open>
  \<^verbatim>\<open>_retrieveSelectivityRanges\<close>: the triples are sorted by plan index (the sort of
  Python is stable), grouped, and the \<open>index\<close>-th group gives the entry of key
  \<open>index + 1\<close>: the rows and the columns of the least and of the greatest triple of the
  group.
\<close>

fun ranges_loop ::
  "(nat \<times> nat \<times> nat) list list \<Rightarrow> nat \<Rightarrow> error + (nat \<times> (nat \<times> nat) \<times> (nat \<times> nat)) list" where
  "ranges_loop [] index = Inr []"
| "ranges_loop (lst # rest) index =
     (case py_min lst of
        Inl e \<Rightarrow> Inl e
      | Inr lo \<Rightarrow>
         (case py_max lst of
            Inl e \<Rightarrow> Inl e
          | Inr hi \<Rightarrow>
             (let tupleMinMaxDim1 = (fst (snd lo), fst (snd hi));
                  tupleMinMaxDim2 = (snd (snd lo), snd (snd hi))
              in case ranges_loop rest (index + 1) of
                   Inl e \<Rightarrow> Inl e
                 | Inr d \<Rightarrow> Inr ((index + 1, tupleMinMaxDim1, tupleMinMaxDim2) # d))))"

definition retrieveSelectivityRanges ::
  "nat list \<Rightarrow> error + (nat \<times> (nat \<times> nat) \<times> (nat \<times> nat)) list" where
  "retrieveSelectivityRanges planIndexes =
     (case convert2DArray planIndexes RESOLUTION of
        Inl e \<Rightarrow> Inl e
      | Inr matrix \<Rightarrow>
         (let lstSelectivityTuples = sort_key fst (selectivity_tuples matrix);
              temp = map snd (splitListOfTuplesByKey lstSelectivityTuples)
          in ranges_loop temp 0))"

text \<open>
  \<^verbatim>\<open>generateFoundExplanation\<close>, without the text around the numbers: for every plan
  number the percentage ranges \<open>(bound * 10, (bound + 1) * 10)\<close>, of the second pair of
  bounds when there is one attribute and of both pairs when there are two; nothing for
  any other number of attributes.
\<close>

datatype explanation =
    OneDimension nat string "nat \<times> nat"
  | TwoDimensions nat string "nat \<times> nat" string "nat \<times> nat"

definition percentage_range :: "nat \<times> nat \<Rightarrow> nat \<times> nat" where
  "percentage_range bounds = (fst bounds * 10, (snd bounds + 1) * 10)"

definition generateFoundExplanation ::
  "string list \<Rightarrow> nat list \<Rightarrow> error + explanation list" where
  "generateFoundExplanation lstPredicateAttributes selectivityMap =
     (case retrieveSelectivityRanges selectivityMap of
        Inl e \<Rightarrow> Inl e
      | Inr dictSelectvityRanges \<Rightarrow>
          Inr (concat (map (\<lambda>(key, value).
                 if length lstPredicateAttributes = 1
                 then [OneDimension key (lstPredicateAttributes ! 0) (percentage_range (snd value))]
                 else if length lstPredicateAttributes = 2
                 then [TwoDimensions key (lstPredicateAttributes ! 0) (percentage_range (fst value))
                         (lstPredicateAttributes ! 1) (percentage_range (snd value))]
                 else []) dictSelectvityRanges)))"

text \<open>
  The bounding box of the cells of a plan in the matrix, as the specification words it:
  the least and the greatest row, and the least and the greatest column, over all the
  cells that hold the plan.
\<close>

definition cells_of :: "nat list list \<Rightarrow> nat \<Rightarrow> (nat \<times> nat) list" where
  "cells_of matrix k = map snd (filter (\<lambda>t. fst t = k) (selectivity_tuples matrix))"

definition bounding_box :: "nat list list \<Rightarrow> nat \<Rightarrow> (nat \<times> nat) \<times> (nat \<times> nat)" where
  "bounding_box matrix k =
     (let rows = map fst (cells_of matrix k); cols = map snd (cells_of matrix k)
      in ((foldl min (hd rows) rows, foldl max (hd rows) rows),
          (foldl min (hd cols) cols, foldl max (hd cols) cols)))"

text \<open>
  The row of the specification's example, and a grid of two rows of ten cells in which
  the cells of each plan do not fill a rectangle.
\<close>

definition row_example :: "nat list" where
  "row_example = [1, 1, 1, 1, 2, 2, 2, 2, 2, 2]"

definition grid_example :: "nat list" where
  "grid_example = [1, 1, 1, 1, 1, 2, 2, 2, 2, 2,
                   1, 1, 2, 2, 2, 2, 2, 2, 2, 2]"

section \<open>A small catalogue for the examples\<close>

text \<open>
  The value of \<^verbatim>\<open>float\<close> on a string of decimal digits; the other strings the examples
  pass to it (a column name) raise ValueError. \<^verbatim>\<open>str\<close> on a float whose value is a
  natural number prints the number and \<^verbatim>\<open>.0\<close>.
\<close>

definition digit_of :: "char \<Rightarrow> nat option" where
  "digit_of c =
     (let n = (of_char c :: nat) in if 48 \<le> n \<and> n \<le> 57 then Some (n - 48) else None)"

fun nat_of_digits :: "nat \<Rightarrow> string \<Rightarrow> nat option" where
  "nat_of_digits acc [] = Some acc"
| "nat_of_digits acc (c # cs) =
     (case digit_of c of None \<Rightarrow> None | Some d \<Rightarrow> nat_of_digits (10 * acc + d) cs)"

definition example_float :: "string \<Rightarrow> rat option" where
  "example_float s = (if s = [] then None else map_option of_nat (nat_of_digits 0 s))"

text \<open>A statistics row with 23 histogram bounds, one most common value and its frequency.\<close>

definition example_histogram :: pyval where
  "example_histogram =
     PList [PTuple [PStr ''{0,1,2,3,4,5,6,7,8,9,10,11,12,13,14,15,16,17,18,19,20,21,22}'',
                    PStr ''{5}'', PList [PNum (1 / 10)]]]"

text \<open>
  The answers of \<^verbatim>\<open>get_var_column\<close> on three queries: the identifiers of the
  comparisons with an inequality, and the text of these comparisons.
\<close>

definition query_two_columns :: string where
  "query_two_columns = ''SELECT * FROM lineitem WHERE l_commitdate < l_receiptdate''"

definition query_one_predicate :: string where
  "query_one_predicate = ''SELECT * FROM lineitem WHERE l_quantity < 30''"

definition query_three_predicates :: string where
  "query_three_predicates =
     ''SELECT * FROM lineitem WHERE l_quantity < 30 AND l_discount < 5 AND l_tax < 2''"

definition example_parser :: "string \<Rightarrow> string list \<times> string list" where
  "example_parser q =
     (if q = query_two_columns
      then ([''l_commitdate'', ''l_receiptdate''], [''l_commitdate < l_receiptdate''])
      else if q = query_one_predicate then ([''l_quantity''], [''l_quantity < 30''])
      else if q = query_three_predicates
      then ([''l_quantity'', ''l_discount'', ''l_tax''],
            [''l_quantity < 30'', ''l_discount < 5'', ''l_tax < 2''])
      else ([], []))"

definition catalogue_lib :: pylib where
  "catalogue_lib =
     \<lparr> py_str = (\<lambda>r. str_of_nat (nat \<lfloor>r\<rfloor>) @ ''.0''),
       py_float = example_float,
       diff = example_diff,
       get_var_column = example_parser \<rparr>"

text \<open>
  A database with the table \<^verbatim>\<open>lineitem\<close>: the histogram of a date column holds dates,
  every other histogram is the one above. The engine fails on the queries that contain
  the text \<open>failing\<close> and answers the others, by an index scan when the threshold is 0.0
  and by a sequential scan otherwise.
\<close>

definition date_histogram :: pyval where
  "date_histogram =
     PList [PTuple [PStr ''{1992-01-04,1995-06-17,1998-12-31}'', PStr ''{1995-01-01}'',
                    PList [PNum (1 / 10)]]]"

definition catalogue_db :: "string \<Rightarrow> communicator" where
  "catalogue_db failing =
     \<lparr> getQEP = (\<lambda>q. if is_infix failing q then PNone
                        else PList [PTuple [example_qep
                               (if is_infix ''<= 0.0'' q then ''Index Scan'' else ''Seq Scan'')]]),
       getHistogram = (\<lambda>t a. if a = ''l_receiptdate'' then date_histogram else example_histogram),
       getCardinality = (\<lambda>t. Inr (PNum 6000000)),
       findRelation = (\<lambda>a. Inr ''lineitem'') \<rparr>"

section \<open>Notions used in the statements about failures\<close>

text \<open>A call of the plan-producing engine, as opposed to a statistics lookup.\<close>

definition is_engine_call :: "db_call \<Rightarrow> bool" where
  "is_engine_call c = (case c of CallGetQEP q \<Rightarrow> True | _ \<Rightarrow> False)"

text \<open>
  The lookups and the reading of the histogram of an attribute raise nothing (the body
  of the loop of \<^verbatim>\<open>_generatePredicateValues\<close> before the test of the index).
\<close>

definition sampling_succeeds :: "pylib \<Rightarrow> communicator \<Rightarrow> string \<Rightarrow> bool" where
  "sampling_succeeds L C attribute =
     (case snd (sample_attribute L C attribute []) of Inr selVals \<Rightarrow> True | Inl e \<Rightarrow> False)"

text \<open>Query templates with one and with two tokens.\<close>

definition template_1D :: string where
  "template_1D = ''SELECT * FROM lineitem WHERE l_quantity :varies''"

definition template_2D :: string where
  "template_2D = ''SELECT * FROM lineitem WHERE l_quantity :varies AND l_tax :varies''"

section \<open>Properties of the plan enumeration\<close>

lemma find_similar_spec:
  "find_similar L found qep i = Inr r \<Longrightarrow>
   r = map_option (\<lambda>j. i + j + 1) (first_equivalent (judged_equivalent L) found qep)"
proof (induction found arbitrary: i)
  case Nil
  then show ?case by simp
next
  case (Cons p ps)
  show ?case
  proof (cases "findValueInNestedDict (compareQEPs L p qep) ''Node Type''")
    case (Inl e)
    with Cons.prems show ?thesis by simp
  next
    case (Inr b)
    show ?thesis
    proof (cases "b = PNone")
      case True
      with Inr Cons.prems show ?thesis by (simp add: judged_equivalent_def)
    next
      case False
      with Inr Cons.prems have "find_similar L ps qep (i + 1) = Inr r" by simp
      from Cons.IH[OF this] Inr False show ?thesis
        by (simp add: judged_equivalent_def option.map_comp comp_def)
    qed
  qed
qed

lemma assign_plan_first: "assign_plan L True ([], []) qep = Inr ([1], [qep])"
  by (simp add: assign_plan_def)

lemma assign_plan_later:
  assumes "assign_plan L False st qep = Inr st'"
  shows "st' = spec_assign (judged_equivalent L) st qep"
proof -
  obtain grid members where st: "st = (grid, members)" by (cases st)
  show ?thesis
  proof (cases "find_similar L members qep 0")
    case (Inl e)
    with assms st show ?thesis by (simp add: assign_plan_def)
  next
    case (Inr r)
    from find_similar_spec[OF Inr] Inr assms st show ?thesis
      by (cases "first_equivalent (judged_equivalent L) members qep")
         (auto simp: assign_plan_def spec_assign_def)
  qed
qed

lemma retrieve_loop_1D_later:
  "retrieve_loop_1D L C query vals index st calls = (calls', Inr st') \<Longrightarrow> index \<noteq> 0 \<Longrightarrow>
   \<exists>qeps. list_all2 (\<lambda>v qep. fetch_qep C (point_query_1D L query v) = Inr qep) vals qeps \<and>
          st' = foldl (spec_assign (judged_equivalent L)) st qeps"
proof (induction vals arbitrary: index st calls)
  case Nil
  then show ?case by simp
next
  case (Cons v vs)
  let ?q = "point_query_1D L query v"
  from Cons.prems obtain qep where f: "fetch_qep C ?q = Inr qep"
    by (cases "fetch_qep C ?q") (auto simp: point_query_1D_def Let_def)
  from Cons.prems f obtain st1 where a: "assign_plan L False st qep = Inr st1"
    by (cases "assign_plan L False st qep") (auto simp: point_query_1D_def Let_def)
  from Cons.prems f a have
    "retrieve_loop_1D L C query vs (index + 1) st1 (calls @ [CallGetQEP ?q]) = (calls', Inr st')"
    by (simp add: point_query_1D_def Let_def)
  from Cons.IH[OF this] obtain qeps where
    "list_all2 (\<lambda>v qep. fetch_qep C (point_query_1D L query v) = Inr qep) vs qeps"
    "st' = foldl (spec_assign (judged_equivalent L)) st1 qeps" by auto
  with f assign_plan_later[OF a] show ?case
    by (intro exI[of _ "qep # qeps"]) simp
qed

lemma retrieve_1D_spec:
  assumes "retrieveQEPs_OneDimension L C query vals = (calls, Inr st')"
  shows "\<exists>qeps. list_all2 (\<lambda>v qep. fetch_qep C (point_query_1D L query v) = Inr qep) vals qeps \<and>
          st' = spec_enumerate (judged_equivalent L) qeps"
proof (cases vals)
  case Nil
  with assms show ?thesis by (simp add: retrieveQEPs_OneDimension_def)
next
  case (Cons v vs)
  let ?q = "point_query_1D L query v"
  from assms Cons obtain qep where f: "fetch_qep C ?q = Inr qep"
    by (cases "fetch_qep C ?q") (auto simp: retrieveQEPs_OneDimension_def point_query_1D_def Let_def)
  from assms Cons f have
    "retrieve_loop_1D L C query vs (0 + 1) ([1], [qep]) ([] @ [CallGetQEP ?q]) = (calls, Inr st')"
    by (simp add: retrieveQEPs_OneDimension_def point_query_1D_def Let_def assign_plan_first)
  from retrieve_loop_1D_later[OF this] obtain qeps where
    "list_all2 (\<lambda>v qep. fetch_qep C (point_query_1D L query v) = Inr qep) vs qeps"
    "st' = foldl (spec_assign (judged_equivalent L)) ([1], [qep]) qeps" by auto
  with f Cons show ?thesis
    by (intro exI[of _ "qep # qeps"]) simp
qed


lemma retrieve_inner_2D_later:
  "retrieve_inner_2D L C query v1 vs2 index index2 st calls = (calls', Inr st') \<Longrightarrow>
   index \<noteq> 0 \<or> index2 \<noteq> 0 \<Longrightarrow>
   \<exists>qeps. list_all2 (\<lambda>v2 qep. fetch_qep C (point_query_2D L query (v1, v2)) = Inr qep) vs2 qeps \<and>
          st' = foldl (spec_assign (judged_equivalent L)) st qeps"
proof (induction vs2 arbitrary: index2 st calls)
  case Nil
  then show ?case by simp
next
  case (Cons v vs)
  let ?q = "point_query_2D L query (v1, v)"
  from Cons.prems(2) have nf:
    "\<And>q. assign_plan L (index = 0 \<and> index2 = 0) st q = assign_plan L False st q" by auto
  from Cons.prems(1) obtain qep where f: "fetch_qep C ?q = Inr qep"
    by (cases "fetch_qep C ?q") (auto simp: point_query_2D_def Let_def)
  from Cons.prems(1) f obtain st1 where a: "assign_plan L False st qep = Inr st1"
    by (cases "assign_plan L False st qep") (auto simp: point_query_2D_def Let_def nf)
  from Cons.prems(1) f a have
    "retrieve_inner_2D L C query v1 vs index (index2 + 1) st1 (calls @ [CallGetQEP ?q]) =
       (calls', Inr st')"
    by (simp add: point_query_2D_def Let_def nf)
  from Cons.IH[OF this] obtain qeps where
    "list_all2 (\<lambda>v2 qep. fetch_qep C (point_query_2D L query (v1, v2)) = Inr qep) vs qeps"
    "st' = foldl (spec_assign (judged_equivalent L)) st1 qeps" by auto
  with f assign_plan_later[OF a] show ?case
    by (intro exI[of _ "qep # qeps"]) simp
qed

lemma retrieve_outer_2D_later:
  "retrieve_outer_2D L C query vs1 d2 index st calls = (calls', Inr st') \<Longrightarrow> index \<noteq> 0 \<Longrightarrow>
   \<exists>qeps. list_all2 (\<lambda>p qep. fetch_qep C (point_query_2D L query p) = Inr qep)
            (List.product vs1 d2) qeps \<and>
          st' = foldl (spec_assign (judged_equivalent L)) st qeps"
proof (induction vs1 arbitrary: index st calls)
  case Nil
  then show ?case by simp
next
  case (Cons v vs)
  obtain calls1 r1 where i: "retrieve_inner_2D L C query v d2 index 0 st calls = (calls1, r1)"
    by (cases "retrieve_inner_2D L C query v d2 index 0 st calls")
  with Cons.prems(1) obtain st1 where r1: "r1 = Inr st1"
    by (cases r1) auto
  from retrieve_inner_2D_later[OF i[unfolded r1]] Cons.prems(2) obtain qeps1 where q1:
    "list_all2 (\<lambda>v2 qep. fetch_qep C (point_query_2D L query (v, v2)) = Inr qep) d2 qeps1"
    "st1 = foldl (spec_assign (judged_equivalent L)) st qeps1" by auto
  from Cons.prems(1) i r1 have
    "retrieve_outer_2D L C query vs d2 (index + 1) st1 calls1 = (calls', Inr st')" by simp
  from Cons.IH[OF this] obtain qeps2 where q2:
    "list_all2 (\<lambda>p qep. fetch_qep C (point_query_2D L query p) = Inr qep) (List.product vs d2) qeps2"
    "st' = foldl (spec_assign (judged_equivalent L)) st1 qeps2" by auto
  from q1(1) have "list_all2 (\<lambda>p qep. fetch_qep C (point_query_2D L query p) = Inr qep)
      (map (Pair v) d2) qeps1"
    by (simp add: list_all2_map1)
  with q2(1) have "list_all2 (\<lambda>p qep. fetch_qep C (point_query_2D L query p) = Inr qep)
      (List.product (v # vs) d2) (qeps1 @ qeps2)"
    by (simp add: list_all2_appendI)
  with q1(2) q2(2) show ?case
    by (intro exI[of _ "qeps1 @ qeps2"]) simp
qed

lemma product_Nil_right: "List.product xs [] = []"
  by (induction xs) simp_all

lemma retrieve_2D_spec:
  assumes "retrieveQEPs_TwoDimensions L C query d1 d2 = (calls, Inr st')"
  shows "\<exists>qeps. list_all2 (\<lambda>p qep. fetch_qep C (point_query_2D L query p) = Inr qep)
            (List.product d1 d2) qeps \<and>
          st' = spec_enumerate (judged_equivalent L) qeps"
proof (cases d1)
  case Nil
  with assms show ?thesis by (simp add: retrieveQEPs_TwoDimensions_def)
next
  case d1: (Cons v1 vs1)
  show ?thesis
  proof (cases d2)
    case Nil
    with assms d1 have
      "retrieve_outer_2D L C query vs1 [] (0 + 1) ([], []) [] = (calls, Inr st')"
      by (simp add: retrieveQEPs_TwoDimensions_def)
    from retrieve_outer_2D_later[OF this] Nil show ?thesis
      by (simp add: product_Nil_right)
  next
    case d2: (Cons v2 vs2)
    let ?q = "point_query_2D L query (v1, v2)"
    obtain calls1 r1 where i:
      "retrieve_inner_2D L C query v1 (v2 # vs2) 0 0 ([], []) [] = (calls1, r1)"
      by (cases "retrieve_inner_2D L C query v1 (v2 # vs2) 0 0 ([], []) []")
    with assms d1 d2 obtain st1 where r1: "r1 = Inr st1"
      by (cases r1) (auto simp: retrieveQEPs_TwoDimensions_def)
    from i r1 obtain qep where f: "fetch_qep C ?q = Inr qep"
      by (cases "fetch_qep C ?q") (auto simp: point_query_2D_def Let_def)
    from i r1 f have
      "retrieve_inner_2D L C query v1 vs2 0 (0 + 1) ([1], [qep]) ([] @ [CallGetQEP ?q]) =
         (calls1, Inr st1)"
      by (simp add: point_query_2D_def Let_def assign_plan_first)
    from retrieve_inner_2D_later[OF this] obtain qeps1 where q1:
      "list_all2 (\<lambda>v2 qep. fetch_qep C (point_query_2D L query (v1, v2)) = Inr qep) vs2 qeps1"
      "st1 = foldl (spec_assign (judged_equivalent L)) ([1], [qep]) qeps1" by auto
    from assms d1 d2 i r1 have
      "retrieve_outer_2D L C query vs1 d2 (0 + 1) st1 calls1 = (calls, Inr st')"
      by (simp add: retrieveQEPs_TwoDimensions_def)
    from retrieve_outer_2D_later[OF this] obtain qeps2 where q2:
      "list_all2 (\<lambda>p qep. fetch_qep C (point_query_2D L query p) = Inr qep)
         (List.product vs1 d2) qeps2"
      "st' = foldl (spec_assign (judged_equivalent L)) st1 qeps2" by auto
    from q1(1) f have "list_all2 (\<lambda>p qep. fetch_qep C (point_query_2D L query p) = Inr qep)
        (map (Pair v1) (v2 # vs2)) (qep # qeps1)"
      by (simp add: list_all2_map1)
    with q2(1) d1 d2 have "list_all2 (\<lambda>p qep. fetch_qep C (point_query_2D L query p) = Inr qep)
        (List.product d1 d2) ((qep # qeps1) @ qeps2)"
      unfolding d1 List.product.simps by (intro list_all2_appendI) simp_all
    with q1(2) q2(2) show ?thesis
      by (intro exI[of _ "(qep # qeps1) @ qeps2"]) simp
  qed
qed

lemma first_equivalent_bound: "first_equivalent eqv ms q = Some i \<Longrightarrow> i < length ms"
  by (induction ms arbitrary: i) (auto split: if_splits)

lemma spec_assign_invariant:
  assumes "set grid = {1..length members}" "grid \<noteq> []"
    and "spec_assign eqv (grid, members) q = (grid', members')"
  shows "set grid' = {1..length members'} \<and> grid' \<noteq> [] \<and> hd grid' = hd grid \<and>
         length grid' = length grid + 1"
proof (cases "first_equivalent eqv members q")
  case None
  with assms(3) have g: "grid' = grid @ [length members + 1]" and m: "members' = members @ [q]"
    by (simp_all add: spec_assign_def)
  have "set grid' = insert (Suc (length members)) {1..length members}"
    using g assms(1) by simp
  also have "\<dots> = {1..Suc (length members)}"
    by (simp add: atLeastAtMostSuc_conv)
  finally have "set grid' = {1..length members'}" using m by simp
  with g assms(2) show ?thesis by simp
next
  case (Some i)
  with assms(3) have g: "grid' = grid @ [i + 1]" and m: "members' = members"
    by (simp_all add: spec_assign_def)
  from first_equivalent_bound[OF Some] have "i + 1 \<in> {1..length members}" by simp
  then have "insert (i + 1) {1..length members} = {1..length members}"
    by (rule insert_absorb)
  with g m assms(1) have "set grid' = {1..length members'}" by simp
  with g assms(2) show ?thesis by simp
qed

lemma spec_fold_invariant:
  "set grid = {1..length members} \<Longrightarrow> grid \<noteq> [] \<Longrightarrow>
   foldl (spec_assign eqv) (grid, members) qs = (grid', members') \<Longrightarrow>
   set grid' = {1..length members'} \<and> grid' \<noteq> [] \<and> hd grid' = hd grid \<and>
   length grid' = length grid + length qs"
proof (induction qs arbitrary: grid members)
  case Nil
  then show ?case by simp
next
  case (Cons q qs)
  obtain g1 m1 where s: "spec_assign eqv (grid, members) q = (g1, m1)"
    by (cases "spec_assign eqv (grid, members) q")
  from spec_assign_invariant[OF Cons.prems(1,2) s]
  have i1: "set g1 = {1..length m1}" "g1 \<noteq> []" "hd g1 = hd grid" "length g1 = length grid + 1"
    by simp_all
  from Cons.prems(3) s have "foldl (spec_assign eqv) (g1, m1) qs = (grid', members')" by simp
  from Cons.IH[OF i1(1,2) this] i1(3,4) show ?case by simp
qed

lemma spec_enumerate_invariant:
  assumes "spec_enumerate eqv qs = (grid, members)"
  shows "set grid = {1..length members} \<and> (grid \<noteq> [] \<longrightarrow> hd grid = 1) \<and>
         length grid = length qs"
proof (cases qs)
  case Nil
  with assms show ?thesis by simp
next
  case (Cons q rest)
  with assms have "foldl (spec_assign eqv) ([1], [q]) rest = (grid, members)" by simp
  from spec_fold_invariant[OF _ _ this] Cons show ?thesis by simp
qed

lemma example_run_1D:
  "retrieveQEPs_OneDimension example_lib example_engine ''SELECT a FROM t WHERE a :varies''
     [1, 25, 50] =
   ([CallGetQEP ''SELECT a FROM t WHERE a<= 1.0'', CallGetQEP ''SELECT a FROM t WHERE a<= 25.0'',
     CallGetQEP ''SELECT a FROM t WHERE a<= 25.0''],
    Inr ([1, 2, 2], [example_qep ''Index Scan'', example_qep ''Seq Scan'']))"
  by (simp add: retrieveQEPs_OneDimension_def Let_def fetch_qep_def assign_plan_def
      compareQEPs_def example_lib_def example_engine_def example_diff_def example_qep_def
      PREDICATE_TOKEN_def)

lemma example_run_2D:
  "retrieveQEPs_TwoDimensions example_lib example_engine
     ''SELECT a FROM t WHERE a :varies AND b :varies'' [1, 25] [1, 25] =
   ([CallGetQEP ''SELECT a FROM t WHERE a<= 1.0 AND b<= 1.0'',
     CallGetQEP ''SELECT a FROM t WHERE a<= 1.0 AND b<= 25.0'',
     CallGetQEP ''SELECT a FROM t WHERE a<= 25.0 AND b<= 1.0'',
     CallGetQEP ''SELECT a FROM t WHERE a<= 25.0 AND b<= 25.0''],
    Inr ([1, 2, 2, 2], [example_qep ''Index Scan'', example_qep ''Seq Scan'']))"
  by (simp add: retrieveQEPs_TwoDimensions_def Let_def fetch_qep_def assign_plan_def
      compareQEPs_def example_lib_def example_engine_def example_diff_def example_qep_def
      PREDICATE_TOKEN_def)

text \<open>
  Claim C4. In both enumerators the first sampled point seeds the set of distinct plans
  and is given index 1; every later point is compared with the members in insertion order
  and given the index of the first member judged equivalent, and only when no member
  matches is its plan appended and the point given the new index. Stated as a refinement:
  an enumeration that completes returns what the specification's enumeration computes on
  the plans the engine returned for the grid points, taken in the order of the loop (the
  values of the single dimension; in two dimensions the grid in row-major order).
\<close>

theorem enumeration_first_match:
  "(retrieveQEPs_OneDimension L C query d1 = (calls, Inr st) \<longrightarrow>
      (\<exists>qeps. list_all2 (\<lambda>v qep. fetch_qep C (point_query_1D L query v) = Inr qep) d1 qeps \<and>
             st = spec_enumerate (judged_equivalent L) qeps)) \<and>
   (retrieveQEPs_TwoDimensions L C query d1 d2 = (calls, Inr st) \<longrightarrow>
      (\<exists>qeps. list_all2 (\<lambda>p qep. fetch_qep C (point_query_2D L query p) = Inr qep)
               (List.product d1 d2) qeps \<and>
             st = spec_enumerate (judged_equivalent L) qeps))"
  using retrieve_1D_spec retrieve_2D_spec by blast

theorem enumeration_first_match_witness:
  "(\<exists>qeps. list_all2 (\<lambda>v qep. fetch_qep example_engine
               (point_query_1D example_lib ''SELECT a FROM t WHERE a :varies'' v) = Inr qep)
             [1, 25, 50] qeps \<and>
          ([1, 2, 2], [example_qep ''Index Scan'', example_qep ''Seq Scan'']) =
            spec_enumerate (judged_equivalent example_lib) qeps) \<and>
   (\<exists>qeps. list_all2 (\<lambda>p qep. fetch_qep example_engine
               (point_query_2D example_lib ''SELECT a FROM t WHERE a :varies AND b :varies'' p) =
                 Inr qep)
             (List.product [1, 25] [1, 25]) qeps \<and>
          ([1, 2, 2, 2], [example_qep ''Index Scan'', example_qep ''Seq Scan'']) =
            spec_enumerate (judged_equivalent example_lib) qeps)"
  using enumeration_first_match[THEN conjunct1, rule_format, OF example_run_1D]
    enumeration_first_match[THEN conjunct2, rule_format, OF example_run_2D]
  by (rule conjI)

text \<open>
  Claim C10. For every enumeration that completes, in one or two dimensions, the returned
  grid of plan indices has exactly one entry per sampled grid point, its first entry is 1,
  every entry lies between 1 and the number of distinct plans returned, and every index
  from 1 to that number occurs in the grid.
\<close>

theorem enumeration_grid_invariant:
  "(retrieveQEPs_OneDimension L C query d1 = (calls, Inr (grid, found)) \<longrightarrow>
      length grid = length d1 \<and> (grid \<noteq> [] \<longrightarrow> hd grid = 1) \<and>
      (\<forall>k \<in> set grid. 1 \<le> k \<and> k \<le> length found) \<and>
      (\<forall>k. 1 \<le> k \<and> k \<le> length found \<longrightarrow> k \<in> set grid)) \<and>
   (retrieveQEPs_TwoDimensions L C query d1 d2 = (calls, Inr (grid, found)) \<longrightarrow>
      length grid = length d1 * length d2 \<and> (grid \<noteq> [] \<longrightarrow> hd grid = 1) \<and>
      (\<forall>k \<in> set grid. 1 \<le> k \<and> k \<le> length found) \<and>
      (\<forall>k. 1 \<le> k \<and> k \<le> length found \<longrightarrow> k \<in> set grid))"
proof (intro conjI impI)
  assume a: "retrieveQEPs_OneDimension L C query d1 = (calls, Inr (grid, found))"
  from retrieve_1D_spec[OF a] obtain qeps where
    q: "list_all2 (\<lambda>v qep. fetch_qep C (point_query_1D L query v) = Inr qep) d1 qeps"
    and s: "spec_enumerate (judged_equivalent L) qeps = (grid, found)" by auto
  from spec_enumerate_invariant[OF s] list_all2_lengthD[OF q]
  have i: "set grid = {1..length found}" "grid \<noteq> [] \<longrightarrow> hd grid = 1" "length grid = length d1"
    by simp_all
  from i(3) show "length grid = length d1" .
  from i(2) show "grid \<noteq> [] \<Longrightarrow> hd grid = 1" by simp
  from i(1) show "\<forall>k \<in> set grid. 1 \<le> k \<and> k \<le> length found" by simp
  from i(1) show "\<forall>k. 1 \<le> k \<and> k \<le> length found \<longrightarrow> k \<in> set grid" by simp
next
  assume a: "retrieveQEPs_TwoDimensions L C query d1 d2 = (calls, Inr (grid, found))"
  from retrieve_2D_spec[OF a] obtain qeps where
    q: "list_all2 (\<lambda>p qep. fetch_qep C (point_query_2D L query p) = Inr qep)
          (List.product d1 d2) qeps"
    and s: "spec_enumerate (judged_equivalent L) qeps = (grid, found)" by auto
  from spec_enumerate_invariant[OF s] list_all2_lengthD[OF q]
  have i: "set grid = {1..length found}" "grid \<noteq> [] \<longrightarrow> hd grid = 1"
    "length grid = length d1 * length d2"
    by (simp_all add: length_product)
  from i(3) show "length grid = length d1 * length d2" .
  from i(2) show "grid \<noteq> [] \<Longrightarrow> hd grid = 1" by simp
  from i(1) show "\<forall>k \<in> set grid. 1 \<le> k \<and> k \<le> length found" by simp
  from i(1) show "\<forall>k. 1 \<le> k \<and> k \<le> length found \<longrightarrow> k \<in> set grid" by simp
qed

theorem enumeration_grid_invariant_witness:
  "(length [1, 2, 2 :: nat] = length [1, 25, 50 :: rat] \<and> hd [1, 2, 2 :: nat] = 1 \<and>
    list_all (\<lambda>k. 1 \<le> k \<and> k \<le> length [example_qep ''Index Scan'', example_qep ''Seq Scan''])
      [1, 2, 2 :: nat] \<and>
    (1 :: nat) \<in> set [1, 2, 2] \<and> (2 :: nat) \<in> set [1, 2, 2]) \<and>
   (length [1, 2, 2, 2 :: nat] = length [1, 25 :: rat] * length [1, 25 :: rat] \<and>
    hd [1, 2, 2, 2 :: nat] = 1 \<and>
    list_all (\<lambda>k. 1 \<le> k \<and> k \<le> length [example_qep ''Index Scan'', example_qep ''Seq Scan''])
      [1, 2, 2, 2 :: nat] \<and>
    (1 :: nat) \<in> set [1, 2, 2, 2] \<and> (2 :: nat) \<in> set [1, 2, 2, 2])"
  using enumeration_grid_invariant[THEN conjunct1, rule_format, OF example_run_1D]
    enumeration_grid_invariant[THEN conjunct2, rule_format, OF example_run_2D]
  by simp

section \<open>Properties of the plan tree model\<close>

declare str_of_nat.simps [simp del]

lemma digit_char_inj: "d < 10 \<Longrightarrow> e < 10 \<Longrightarrow> digit_char d = digit_char e \<Longrightarrow> d = e"
  by (simp add: digit_char_def split: if_splits) presburger

lemma digit_char_not_underscore: "digit_char d \<noteq> CHR ''_''"
  by (simp add: digit_char_def)

lemma str_of_nat_nonempty: "str_of_nat n \<noteq> []"
  by (subst str_of_nat.simps) simp

lemma str_of_nat_no_underscore: "CHR ''_'' \<notin> set (str_of_nat n)"
proof (induction n rule: str_of_nat.induct)
  case (1 n)
  show ?case
  proof (cases "n < 10")
    case True
    then show ?thesis
      using digit_char_not_underscore[of n] by (subst str_of_nat.simps) auto
  next
    case False
    with 1 digit_char_not_underscore[of "n mod 10"] show ?thesis
      by (subst str_of_nat.simps) auto
  qed
qed

lemma str_of_nat_inj: "str_of_nat n = str_of_nat m \<Longrightarrow> n = m"
proof (induction n arbitrary: m rule: str_of_nat.induct)
  case (1 n)
  show ?case
  proof (cases "n < 10")
    case n: True
    show ?thesis
    proof (cases "m < 10")
      case True
      with n 1(2) show ?thesis
        by (simp add: str_of_nat.simps[of n] str_of_nat.simps[of m] digit_char_inj)
    next
      case False
      with n 1(2) str_of_nat_nonempty[of "m div 10"] show ?thesis
        by (simp add: str_of_nat.simps[of n] str_of_nat.simps[of m])
    qed
  next
    case n: False
    show ?thesis
    proof (cases "m < 10")
      case True
      with n 1(2) str_of_nat_nonempty[of "n div 10"] show ?thesis
        by (simp add: str_of_nat.simps[of n] str_of_nat.simps[of m])
    next
      case False
      with n 1(2) have e: "str_of_nat (n div 10) = str_of_nat (m div 10)"
        and d: "digit_char (n mod 10) = digit_char (m mod 10)"
        by (simp_all add: str_of_nat.simps[of n] str_of_nat.simps[of m])
      from 1(1)[OF n e] have "n div 10 = m div 10" .
      moreover from d have "n mod 10 = m mod 10" by (intro digit_char_inj) simp_all
      ultimately show ?thesis by (metis div_mult_mod_eq)
    qed
  qed
qed

lemma split_at_last:
  assumes "xs @ x # ys = xs' @ x # ys'" "x \<notin> set ys" "x \<notin> set ys'"
  shows "xs = xs' \<and> ys = ys'"
proof -
  from assms(1) have "rev (xs @ x # ys) = rev (xs' @ x # ys')" by simp
  then have r: "rev ys @ x # rev xs = rev ys' @ x # rev xs'" by simp
  have "takeWhile (\<lambda>c. c \<noteq> x) (rev ys @ x # rev xs) = rev ys"
    using assms(2) by (auto simp: takeWhile_tail)
  moreover have "takeWhile (\<lambda>c. c \<noteq> x) (rev ys' @ x # rev xs') = rev ys'"
    using assms(3) by (auto simp: takeWhile_tail)
  ultimately have "rev ys = rev ys'" using r by simp
  then have "ys = ys'" by simp
  with assms(1) show ?thesis by simp
qed

lemma format_id_inj: "format_id a n = format_id b m \<Longrightarrow> a = b \<and> n = m"
proof -
  assume "format_id a n = format_id b m"
  then have "a @ CHR ''_'' # str_of_nat n = b @ CHR ''_'' # str_of_nat m"
    by (simp add: format_id_def)
  from split_at_last[OF this str_of_nat_no_underscore str_of_nat_no_underscore]
  show ?thesis using str_of_nat_inj by auto
qed


lemma counter_value:
  "(case counter_of seen k of None \<Rightarrow> 1 | Some j \<Rightarrow> j) = count_list seen k + 1"
  by (simp add: counter_of_def count_list_0_iff)

lemma counter_step:
  "(counter_of seen)(k \<mapsto> Suc (Suc (count_list seen k))) = counter_of (seen @ [k])"
  by (auto simp: counter_of_def fun_eq_iff)

lemma number_kinds_append:
  "number_kinds seen (xs @ ys) = number_kinds seen xs @ number_kinds (seen @ xs) ys"
  by (induction xs arbitrary: seen) simp_all

lemma generate_ids_numbering:
  "generate_ids_and_cost p nc = (p', nc') \<Longrightarrow> nc = counter_of seen \<Longrightarrow>
     nc' = counter_of (seen @ map node_type (preorder p)) \<and>
     map plan_id (preorder p') = map Some (number_kinds seen (map node_type (preorder p)))"
  "generate_children ps nc acc = (ps', nc', acc') \<Longrightarrow> nc = counter_of seen \<Longrightarrow>
     nc' = counter_of (seen @ map node_type (concat (map preorder ps))) \<and>
     map plan_id (concat (map preorder ps')) =
       map Some (number_kinds seen (map node_type (concat (map preorder ps))))"
proof (induction p nc and ps nc acc arbitrary: p' nc' seen and ps' nc' acc' seen
       rule: generate_ids_and_cost_generate_children.induct)
  case (1 name total_c old_id old_cost children nc)
  let ?k = "count_list seen name + 1"
  obtain ch' nc2 costs where g:
    "generate_children children (counter_of (seen @ [name])) 0 = (ch', nc2, costs)"
    by (cases "generate_children children (counter_of (seen @ [name])) 0") auto
  from 1(2,3) g have p': "p' = Plan name total_c (Some (format_id name ?k))
      (Some (Cost (total_c - costs))) ch'" and nc': "nc' = nc2"
    by (simp_all add: counter_value counter_step)
  have "generate_children children (nc(name \<mapsto> (case nc name of None \<Rightarrow> 1 | Some k \<Rightarrow> k) + 1)) 0 =
      (ch', nc2, costs)"
    using g 1(3) by (simp add: counter_value counter_step)
  from 1(1)[OF refl refl refl this, of "seen @ [name]"] 1(3)
  have "nc2 = counter_of ((seen @ [name]) @ map node_type (concat (map preorder children)))"
    and "map plan_id (concat (map preorder ch')) =
       map Some (number_kinds (seen @ [name]) (map node_type (concat (map preorder children))))"
    by (simp_all add: counter_value counter_step)
  with p' nc' show ?case by simp
next
  case (2 nc acc)
  then show ?case by simp
next
  case (3 child rest nc acc)
  obtain c' nc1 where c: "generate_ids_and_cost child nc = (c', nc1)"
    by (cases "generate_ids_and_cost child nc")
  obtain r' nc2 acc2 where r:
    "generate_children rest nc1 (acc + Cost (total_cost c')) = (r', nc2, acc2)"
    by (cases "generate_children rest nc1 (acc + Cost (total_cost c'))") auto
  from 3(3) c r have res: "ps' = c' # r'" "nc' = nc2" by simp_all
  from 3(1)[OF c 3(4)] have
    n1: "nc1 = counter_of (seen @ map node_type (preorder child))" and
    i1: "map plan_id (preorder c') = map Some (number_kinds seen (map node_type (preorder child)))"
    by simp_all
  from 3(2)[OF c[symmetric] r n1] have
    "nc2 = counter_of ((seen @ map node_type (preorder child)) @
             map node_type (concat (map preorder rest)))" and
    "map plan_id (concat (map preorder r')) =
       map Some (number_kinds (seen @ map node_type (preorder child))
         (map node_type (concat (map preorder rest))))"
    by simp_all
  with res i1 show ?case by (simp add: number_kinds_append)
qed


lemma number_kinds_lower:
  "s \<in> set (number_kinds seen ks) \<Longrightarrow> \<exists>k m. s = format_id k m \<and> count_list seen k < m"
proof (induction ks arbitrary: seen)
  case Nil
  then show ?case by simp
next
  case (Cons k0 ks)
  from Cons.prems consider "s = format_id k0 (count_list seen k0 + 1)"
    | "s \<in> set (number_kinds (seen @ [k0]) ks)" by auto
  then show ?case
  proof cases
    case 1
    then show ?thesis by (intro exI[of _ k0] exI[of _ "count_list seen k0 + 1"]) simp
  next
    case 2
    from Cons.IH[OF 2] obtain k m where "s = format_id k m" "count_list (seen @ [k0]) k < m"
      by blast
    then show ?thesis by (intro exI[of _ k] exI[of _ m]) (auto split: if_splits)
  qed
qed

lemma number_kinds_distinct: "distinct (number_kinds seen ks)"
proof (induction ks arbitrary: seen)
  case Nil
  then show ?case by simp
next
  case (Cons k0 ks)
  have "format_id k0 (count_list seen k0 + 1) \<notin> set (number_kinds (seen @ [k0]) ks)"
  proof
    assume "format_id k0 (count_list seen k0 + 1) \<in> set (number_kinds (seen @ [k0]) ks)"
    from number_kinds_lower[OF this] obtain k m where
      e: "format_id k0 (count_list seen k0 + 1) = format_id k m"
      and l: "count_list (seen @ [k0]) k < m" by blast
    from format_id_inj[OF e] l show False by auto
  qed
  with Cons.IH show ?case by simp
qed

lemma generate_keeps_raw:
  "generate_ids_and_cost p nc = (p', nc') \<Longrightarrow> erase p' = erase p"
  "generate_children ps nc acc = (ps', nc', acc') \<Longrightarrow> map erase ps' = map erase ps"
proof (induction p nc and ps nc acc arbitrary: p' nc' and ps' nc' acc'
       rule: generate_ids_and_cost_generate_children.induct)
  case (1 name total_c old_id old_cost children nc)
  let ?nc1 = "nc(name \<mapsto> (case nc name of None \<Rightarrow> 1 | Some k \<Rightarrow> k) + 1)"
  obtain ch' nc2 costs where g: "generate_children children ?nc1 0 = (ch', nc2, costs)"
    by (cases "generate_children children ?nc1 0") auto
  from 1(1)[OF refl refl refl g] 1(2) g show ?case by (auto simp: Let_def)
next
  case (2 nc acc)
  then show ?case by simp
next
  case (3 child rest nc acc)
  obtain c' nc1 where c: "generate_ids_and_cost child nc = (c', nc1)"
    by (cases "generate_ids_and_cost child nc")
  obtain r' nc2 acc2 where r:
    "generate_children rest nc1 (acc + Cost (total_cost c')) = (r', nc2, acc2)"
    by (cases "generate_children rest nc1 (acc + Cost (total_cost c'))") auto
  from 3(3) c r have "ps' = c' # r'" by simp
  with 3(1)[OF c] 3(2)[OF c[symmetric] r] show ?case by simp
qed

lemma generate_ignores_annotations:
  "generate_ids_and_cost (erase p) nc = generate_ids_and_cost p nc"
  "generate_children (map erase ps) nc acc = generate_children ps nc acc"
proof (induction p nc and ps nc acc rule: generate_ids_and_cost_generate_children.induct)
  case (1 name total_c old_id old_cost children nc)
  let ?nc1 = "nc(name \<mapsto> (case nc name of None \<Rightarrow> 1 | Some k \<Rightarrow> k) + 1)"
  have e: "generate_children (map erase children) ?nc1 0 = generate_children children ?nc1 0"
    using 1[OF refl refl refl] .
  show ?case
    unfolding erase.simps generate_ids_and_cost.simps Let_def e by (rule refl)
next
  case (2 nc acc)
  then show ?case by simp
next
  case (3 child rest nc acc)
  obtain c' nc1 where c: "generate_ids_and_cost child nc = (c', nc1)"
    by (cases "generate_ids_and_cost child nc")
  from 3(1) 3(2)[OF c[symmetric]] c show ?case by simp
qed

lemma generate_idempotent:
  "generate_ids_and_cost (fst (generate_ids_and_cost p nc0)) nc = generate_ids_and_cost p nc"
proof -
  obtain p' nc' where g: "generate_ids_and_cost p nc0 = (p', nc')"
    by (cases "generate_ids_and_cost p nc0")
  have "generate_ids_and_cost p' nc = generate_ids_and_cost (erase p') nc"
    by (simp add: generate_ignores_annotations)
  also have "\<dots> = generate_ids_and_cost (erase p) nc"
    using generate_keeps_raw(1)[OF g] by simp
  also have "\<dots> = generate_ids_and_cost p nc"
    by (simp add: generate_ignores_annotations)
  finally show ?thesis using g by simp
qed

lemma generate_cost_rule:
  "generate_ids_and_cost p nc = (p', nc') \<Longrightarrow>
     total_cost p' = total_cost p \<and> list_all cost_rule (preorder p')"
  "generate_children ps nc acc = (ps', nc', acc') \<Longrightarrow>
     acc' = acc + sum_list (map (\<lambda>c. Cost (total_cost c)) ps') \<and>
     list_all cost_rule (concat (map preorder ps'))"
proof (induction p nc and ps nc acc arbitrary: p' nc' and ps' nc' acc'
       rule: generate_ids_and_cost_generate_children.induct)
  case (1 name total_c old_id old_cost children nc)
  let ?nc1 = "nc(name \<mapsto> (case nc name of None \<Rightarrow> 1 | Some k \<Rightarrow> k) + 1)"
  obtain ch' nc2 costs where g: "generate_children children ?nc1 0 = (ch', nc2, costs)"
    by (cases "generate_children children ?nc1 0") auto
  from 1(1)[OF refl refl refl g] 1(2) g show ?case
    by (auto simp: Let_def cost_rule_def)
next
  case (2 nc acc)
  then show ?case by simp
next
  case (3 child rest nc acc)
  obtain c' nc1 where c: "generate_ids_and_cost child nc = (c', nc1)"
    by (cases "generate_ids_and_cost child nc")
  obtain r' nc2 acc2 where r:
    "generate_children rest nc1 (acc + Cost (total_cost c')) = (r', nc2, acc2)"
    by (cases "generate_children rest nc1 (acc + Cost (total_cost c'))") auto
  from 3(3) c r have "ps' = c' # r'" "acc' = acc2" by simp_all
  with 3(1)[OF c] 3(2)[OF c[symmetric] r] show ?case by simp
qed

lemma py_round2_nonneg: "0 \<le> x \<Longrightarrow> 0 \<le> py_round2 x"
  by (simp add: py_round2_def Let_def)

lemma py_round2_close: "\<bar>py_round2 x - x\<bar> \<le> 1 / 200"
proof -
  define y where "y = x * 100"
  define f where "f = \<lfloor>y\<rfloor>"
  define d where "d = y - of_int f"
  define r where "r = (if d < 1 / 2 then f else if 1 / 2 < d then f + 1
                 else if even f then f else f + 1)"
  have d: "0 \<le> d" "d < 1" unfolding d_def f_def by linarith+
  have y: "y = of_int f + d" unfolding d_def by simp
  have "\<bar>of_int r - y\<bar> \<le> 1 / 2"
    unfolding y r_def using d by (auto simp: abs_if)
  then have b: "\<bar>of_int r - y\<bar> / 100 \<le> (1 / 2) / 100"
    by (intro divide_right_mono) simp_all
  have pr: "py_round2 x = of_int r / 100"
    unfolding py_round2_def Let_def r_def d_def f_def y_def ..
  have xy: "y / 100 = x" unfolding y_def by simp
  have "py_round2 x - x = of_int r / 100 - y / 100"
    by (simp only: pr xy)
  also have "\<dots> = (of_int r - y) / 100"
    by (simp add: diff_divide_distrib)
  finally have "\<bar>py_round2 x - x\<bar> = \<bar>(of_int r - y) / 100\<bar>" by (rule arg_cong)
  also have "\<dots> = \<bar>of_int r - y\<bar> / 100" by (simp add: abs_divide)
  finally show ?thesis using b by simp
qed

lemma py_round2_cents: "py_round2 (of_int k / 100) = of_int k / 100"
  by (simp add: py_round2_def Let_def)

lemma Cost_nonneg: "0 \<le> Cost x"
  by (simp add: Cost_def py_round2_nonneg)

lemma Cost_cents:
  assumes "0 \<le> k"
  shows "Cost (of_int k / 100) = of_int k / 100"
proof -
  from assms have "max (rat_of_int k / 100) 0 = of_int k / 100" by simp
  then show ?thesis by (simp add: Cost_def py_round2_cents)
qed

lemma py_round2_nonpos:
  assumes "x < 0"
  shows "py_round2 x \<le> 0"
proof -
  define y where "y = x * 100"
  define f where "f = \<lfloor>y\<rfloor>"
  from assms have "y < 0" unfolding y_def by simp
  then have "f < 0" unfolding f_def by linarith
  then have f1: "f + 1 \<le> 0" "f \<le> 0" by simp_all
  define r where "r = (if y - of_int f < 1 / 2 then f else if 1 / 2 < y - of_int f then f + 1
                 else if even f then f else f + 1)"
  from f1 have "r \<le> 0" unfolding r_def by simp
  then have "rat_of_int r \<le> 0" by simp
  moreover have "py_round2 x = of_int r / 100"
    unfolding py_round2_def Let_def r_def f_def y_def ..
  ultimately show ?thesis by (simp add: divide_le_0_iff)
qed

lemma Cost_max_round: "Cost x = max 0 (py_round2 x)"
proof (cases "0 \<le> x")
  case True
  then show ?thesis using py_round2_nonneg[of x] by (simp add: Cost_def max_def)
next
  case False
  then have "py_round2 x \<le> 0" using py_round2_nonpos[of x] by simp
  moreover have "py_round2 0 = 0" by (simp add: py_round2_def)
  ultimately show ?thesis using False by (simp add: Cost_def max_def)
qed


lemma example_tree_annotated:
  "fst (generate_ids_and_cost example_tree Map.empty) =
     Plan ''Sort'' 100 (Some ''Sort_1'') (Some 20)
       [Plan ''Hash Join'' 80 (Some ''Hash Join_1'') (Some (71 / 4))
          [Plan ''Seq Scan'' 50 (Some ''Seq Scan_1'') (Some 50) [],
           Plan ''Hash'' (49 / 4) (Some ''Hash_1'') (Some 0)
             [Plan ''Seq Scan'' (49 / 4) (Some ''Seq Scan_2'') (Some (49 / 4)) []]]]"
  by (simp add: example_tree_def Let_def format_id_def str_of_nat.simps digit_char_def
      Cost_def py_round2_def)

text \<open>
  Claim C9. Identifier assignment gives each node the identifier made of its operator
  kind, an underscore and a counter that starts at 1 for each kind and follows the
  pre-order traversal; two distinct nodes never receive the same identifier; running the
  assignment again on the annotated plan yields the same annotated plan. (The assignment
  is a function of the plan, so it is deterministic.)
\<close>

theorem identifier_assignment:
  "map plan_id (preorder (fst (generate_ids_and_cost p Map.empty))) =
     map Some (number_kinds [] (map node_type (preorder p))) \<and>
   distinct (map plan_id (preorder (fst (generate_ids_and_cost p Map.empty)))) \<and>
   fst (generate_ids_and_cost (fst (generate_ids_and_cost p Map.empty)) Map.empty) =
     fst (generate_ids_and_cost p Map.empty)"
proof -
  obtain p' nc' where g: "generate_ids_and_cost p Map.empty = (p', nc')"
    by (cases "generate_ids_and_cost p Map.empty")
  have e: "Map.empty = counter_of []" by (simp add: counter_of_def fun_eq_iff)
  from generate_ids_numbering(1)[OF g e]
  have ids: "map plan_id (preorder p') = map Some (number_kinds [] (map node_type (preorder p)))"
    by simp
  have "distinct (map Some (number_kinds [] (map node_type (preorder p))))"
    by (simp add: distinct_map number_kinds_distinct)
  with ids have "distinct (map plan_id (preorder p'))" by simp
  moreover from generate_idempotent[of p Map.empty Map.empty] g
  have "fst (generate_ids_and_cost p' Map.empty) = p'" by simp
  ultimately show ?thesis using ids g by simp
qed

theorem identifier_assignment_witness:
  "map plan_id (preorder (fst (generate_ids_and_cost example_tree Map.empty))) =
     [Some ''Sort_1'', Some ''Hash Join_1'', Some ''Seq Scan_1'', Some ''Hash_1'',
      Some ''Seq Scan_2''] \<and>
   distinct (map plan_id (preorder (fst (generate_ids_and_cost example_tree Map.empty)))) \<and>
   fst (generate_ids_and_cost (fst (generate_ids_and_cost example_tree Map.empty)) Map.empty) =
     fst (generate_ids_and_cost example_tree Map.empty)"
  using identifier_assignment[of example_tree]
  unfolding example_tree_annotated
  by (simp add: example_tree_def format_id_def str_of_nat.simps digit_char_def Let_def
      Cost_def py_round2_def)

lemma Cost_is_cents: "is_cents t \<Longrightarrow> Cost t = t"
proof -
  assume c: "is_cents t"
  then have "0 \<le> t * 100" by (simp add: is_cents_def)
  then have k: "0 \<le> \<lfloor>t * 100\<rfloor>" by simp
  from c have e: "rat_of_int \<lfloor>t * 100\<rfloor> = t * 100"
    unfolding is_cents_def by (rule conjunct2)
  have "Cost (t * 100 / 100) = t * 100 / 100"
    using Cost_cents[OF k] by (simp only: e)
  then show ?thesis by simp
qed

lemma children_costs_cents:
  "list_all (\<lambda>ch. is_cents (total_cost ch)) chs \<Longrightarrow>
   sum_list (map (\<lambda>ch. Cost (total_cost ch)) chs) = sum_list (map total_cost chs)"
  by (induction chs) (simp_all add: Cost_is_cents)

lemma cost_rule_facts:
  assumes "cost_rule n"
  shows "\<exists>c. own_cost n = Some c \<and> 0 \<le> c \<and>
       c = Cost (total_cost n - sum_list (map (\<lambda>ch. Cost (total_cost ch)) (plans n))) \<and>
       (sum_list (map (\<lambda>ch. Cost (total_cost ch)) (plans n)) \<le> total_cost n \<longrightarrow>
          \<bar>c + sum_list (map (\<lambda>ch. Cost (total_cost ch)) (plans n)) - total_cost n\<bar> \<le> 1 / 100) \<and>
       (list_all (\<lambda>ch. is_cents (total_cost ch)) (plans n) \<longrightarrow>
          c = max 0 (py_round2 (total_cost n - sum_list (map total_cost (plans n)))))"
proof -
  let ?s = "sum_list (map (\<lambda>ch. Cost (total_cost ch)) (plans n))"
  let ?c = "Cost (total_cost n - ?s)"
  from assms have o: "own_cost n = Some ?c" by (simp add: cost_rule_def)
  have close: "\<bar>?c + ?s - total_cost n\<bar> \<le> 1 / 100" if "?s \<le> total_cost n"
  proof -
    from that have "?c = py_round2 (total_cost n - ?s)" by (simp add: Cost_def)
    moreover have "\<bar>py_round2 (total_cost n - ?s) - (total_cost n - ?s)\<bar> \<le> 1 / 200"
      by (rule py_round2_close)
    ultimately have "\<bar>?c - (total_cost n - ?s)\<bar> \<le> 1 / 200" by simp
    moreover have "?c + ?s - total_cost n = ?c - (total_cost n - ?s)" by simp
    ultimately show ?thesis by linarith
  qed
  have cents: "?c = max 0 (py_round2 (total_cost n - sum_list (map total_cost (plans n))))"
    if "list_all (\<lambda>ch. is_cents (total_cost ch)) (plans n)"
    using children_costs_cents[OF that] by (simp add: Cost_max_round)
  show ?thesis
  proof (intro exI[of _ ?c] conjI impI)
    show "own_cost n = Some ?c" by (rule o)
    show "0 \<le> ?c" by (rule Cost_nonneg)
    show "?c = ?c" by (rule refl)
    show "\<bar>?c + ?s - total_cost n\<bar> \<le> 1 / 100" if "?s \<le> total_cost n"
      using that by (rule close)
    show "?c = max 0 (py_round2 (total_cost n - sum_list (map total_cost (plans n))))"
      if "list_all (\<lambda>ch. is_cents (total_cost ch)) (plans n)"
      using that by (rule cents)
  qed
qed

text \<open>
  Claim C5, as amended. For every node of an annotated plan the own cost is not negative
  and equals \<open>Cost\<close> of the total cost minus the sum of \<open>Cost\<close> of the children's total
  costs; when that sum does not exceed the node's total cost, the own cost plus the
  children's (rounded) total costs is the node's total cost within 0.01; when the
  children's total costs are not negative and have two decimals, the own cost is
  \<open>max 0 (round (total - sum of the children's totals))\<close>.
\<close>

theorem own_cost_rule:
  "list_all (\<lambda>n. \<exists>c. own_cost n = Some c \<and> 0 \<le> c \<and>
       c = Cost (total_cost n - sum_list (map (\<lambda>ch. Cost (total_cost ch)) (plans n))) \<and>
       (sum_list (map (\<lambda>ch. Cost (total_cost ch)) (plans n)) \<le> total_cost n \<longrightarrow>
          \<bar>c + sum_list (map (\<lambda>ch. Cost (total_cost ch)) (plans n)) - total_cost n\<bar> \<le> 1 / 100) \<and>
       (list_all (\<lambda>ch. is_cents (total_cost ch)) (plans n) \<longrightarrow>
          c = max 0 (py_round2 (total_cost n - sum_list (map total_cost (plans n))))))
     (preorder (fst (generate_ids_and_cost p nc)))"
proof -
  obtain p' nc' where g: "generate_ids_and_cost p nc = (p', nc')"
    by (cases "generate_ids_and_cost p nc")
  from generate_cost_rule(1)[OF g] have "list_all cost_rule (preorder p')" by simp
  then show ?thesis
    unfolding g fst_conv by (rule list.pred_mono_strong) (rule cost_rule_facts)
qed

theorem own_cost_rule_witness:
  "list_all (\<lambda>n. \<exists>c. own_cost n = Some c \<and> 0 \<le> c \<and>
       c = Cost (total_cost n - sum_list (map (\<lambda>ch. Cost (total_cost ch)) (plans n))) \<and>
       sum_list (map (\<lambda>ch. Cost (total_cost ch)) (plans n)) \<le> total_cost n \<and>
       \<bar>c + sum_list (map (\<lambda>ch. Cost (total_cost ch)) (plans n)) - total_cost n\<bar> \<le> 1 / 100 \<and>
       list_all (\<lambda>ch. is_cents (total_cost ch)) (plans n) \<and>
       c = max 0 (py_round2 (total_cost n - sum_list (map total_cost (plans n)))))
     (preorder (fst (generate_ids_and_cost example_tree Map.empty)))"
  using own_cost_rule[of example_tree Map.empty]
  unfolding example_tree_annotated
  by (simp add: Cost_def py_round2_def is_cents_def)

text \<open>
  Claim C5 as stated fails: the own cost of a node plus the own costs of its children is
  not its total cost when a child has children of its own. In the example the root has
  total cost 100 and own cost 20, and its only child has own cost 17.75.
\<close>

theorem own_cost_sum_counterexample:
  "own_cost (fst (generate_ids_and_cost example_tree Map.empty)) = Some 20 \<and>
   map own_cost (plans (fst (generate_ids_and_cost example_tree Map.empty))) = [Some (71 / 4)] \<and>
   total_cost (fst (generate_ids_and_cost example_tree Map.empty)) = 100 \<and>
   \<not> \<bar>(20 :: rat) + 71 / 4 - 100\<bar> \<le> 1 / 100"
  by (simp add: example_tree_annotated)

section \<open>Properties of the range synthesizer and of the sampler\<close>

text \<open>
  The example of the specification: for a row of ten cells of which the first four hold
  plan 1 and the other six plan 2, plan 1 gets the range 0 to 40 and plan 2 the range 40 to
  100.
\<close>

lemma ranges_row_example:
  "generateFoundExplanation [''a''] row_example =
     Inr [OneDimension 1 ''a'' (0, 40), OneDimension 2 ''a'' (40, 100)]"
  by code_simp

text \<open>
  Claim C3 says that the synthesizer returns, for every plan, the bounding box of its
  cells. On a grid of more than one row it does not: the bounds of the columns are the
  columns of the first and of the last cell of the plan in row-major order, since
  \<^verbatim>\<open>min(lst)\<close> and \<^verbatim>\<open>max(lst)\<close> compare whole triples. In the grid of the example
  plan 1 holds the columns 0 to 4 and plan 2 the columns 2 to 9, and the function returns
  the columns 0 to 1 and 5 to 9.
\<close>

theorem selectivity_ranges_failing_grid:
  "retrieveSelectivityRanges grid_example = Inr [(1, (0, 1), (0, 1)), (2, (0, 1), (5, 9))] \<and>
   bounding_box (chunks RESOLUTION grid_example) 1 = ((0, 1), (0, 4)) \<and>
   bounding_box (chunks RESOLUTION grid_example) 2 = ((0, 1), (2, 9)) \<and>
   generateFoundExplanation [''a'', ''b''] grid_example =
     Inr [TwoDimensions 1 ''a'' (0, 20) ''b'' (0, 20),
          TwoDimensions 2 ''a'' (0, 20) ''b'' (50, 100)]"
  by code_simp

lemma float_all_map: "float_all L xs = Inr ys \<Longrightarrow> map Some ys = map (py_float L) xs"
proof (induction xs arbitrary: ys)
  case Nil
  then show ?case by simp
next
  case (Cons x xs)
  then show ?case
    by (cases "py_float L x"; cases "float_all L xs") auto
qed

lemma midpoint_of_equal_bounds:
  "map (\<lambda>(lowerBound, upperBound). ((upperBound - lowerBound) * (1 / 2)) + lowerBound)
     (zip ys ys) = (ys :: rat list)"
  by (induction ys) simp_all

lemma midpoint_of_equal_bounds_simp:
  "map2 (\<lambda>lowerBound upperBound. (upperBound - lowerBound) / 2 + lowerBound) ys ys =
     (ys :: rat list)"
  by (induction ys) simp_all

text \<open>
  Claim C2 says that each representative value is the midpoint between a retained bound
  and its successor. The upper bounds are read from the same slice as the lower bounds,
  so every value the function returns is a retained bound itself: the values are the
  results of \<^verbatim>\<open>float\<close> on every eleventh entry of the bound list.
\<close>

theorem readHistogram_emits_bounds:
  assumes "readHistogram L histogram = Inr selValues"
  shows "\<exists>lstHistogramValues. histogram_bounds histogram = Inr lstHistogramValues \<and>
           map Some selValues =
             map (py_float L) (every_nth (100 div RESOLUTION + 1) lstHistogramValues)"
proof -
  from assms obtain bs where b: "histogram_bounds histogram = Inr bs"
    by (cases "histogram_bounds histogram") (auto simp: readHistogram_def)
  from assms b obtain ms where m: "most_common_values histogram = Inr ms"
    by (cases "most_common_values histogram") (auto simp: readHistogram_def)
  from assms b m obtain fs where f: "frequency_values histogram = Inr fs"
    by (cases "frequency_values histogram") (auto simp: readHistogram_def)
  from assms b m f obtain ys where
    y: "float_all L (every_nth (100 div RESOLUTION + 1) bs) = Inr ys"
    by (cases "float_all L (every_nth (100 div RESOLUTION + 1) bs)")
       (auto simp: readHistogram_def Let_def)
  from assms b m f y have "selValues = ys"
    by (simp add: readHistogram_def Let_def midpoint_of_equal_bounds_simp)
  with float_all_map[OF y] b show ?thesis by simp
qed

lemma readHistogram_example:
  "readHistogram catalogue_lib example_histogram = Inr [0, 11, 22]"
  by code_simp

theorem readHistogram_emits_bounds_witness:
  "readHistogram catalogue_lib example_histogram = Inr [0, 11, 22] \<and>
   (\<exists>lstHistogramValues. histogram_bounds example_histogram = Inr lstHistogramValues \<and>
      map Some [0, 11, 22] =
        map (py_float catalogue_lib) (every_nth (100 div RESOLUTION + 1) lstHistogramValues))"
  using readHistogram_emits_bounds[OF readHistogram_example] readHistogram_example
  by (rule_tac conjI)

section \<open>Properties of the templater, the sampler and the failures of the engine\<close>

lemma convert_two_columns:
  "convertToQueryTemplate catalogue_lib query_two_columns =
     Inr (RET_CONVERT_QUERY_OK [''l_receiptdate''] query_two_columns)"
  by code_simp

lemma process_two_columns:
  "processQuery catalogue_lib (catalogue_db ''(none)'') query_two_columns =
     ([CallFindRelation ''l_receiptdate'', CallGetHistogram ''lineitem'' ''l_receiptdate'',
       CallGetCardinality ''lineitem''],
      Inl ValueError)"
  by code_simp

text \<open>
  Claim C7 says that template conversion fails whenever no predicate survives the numeric
  filtering. The filter removes a clause that is not numeric together with the attributes
  equal to its left-hand side only; an identifier on its right-hand side stays in the
  list of attributes. For a query whose only comparison is between two columns the
  conversion succeeds with the right-hand column as predicate attribute and the query
  unchanged as template, and \<^verbatim>\<open>processQuery\<close> goes on to the sampler instead of
  returning the failure discriminator.
\<close>

theorem conversion_keeps_right_hand_column:
  "convertToQueryTemplate catalogue_lib query_two_columns =
     Inr (RET_CONVERT_QUERY_OK [''l_receiptdate''] query_two_columns) \<and>
   processQuery catalogue_lib (catalogue_db ''(none)'') query_two_columns =
     ([CallFindRelation ''l_receiptdate'', CallGetHistogram ''lineitem'' ''l_receiptdate'',
       CallGetCardinality ''lineitem''],
      Inl ValueError)"
  by (rule conjI[OF convert_two_columns process_two_columns])

text \<open>
  When the list of attributes is empty after the filter, the conversion returns the error
  result and \<^verbatim>\<open>processQuery\<close> returns the failure discriminator without any call of the
  database.
\<close>

lemma processQuery_conversion_error:
  "convertToQueryTemplate L query = Inr RET_CONVERT_QUERY_ERR \<Longrightarrow>
   processQuery L C query = ([], Inr ConvertQueryErr)"
  by (simp add: processQuery_def)

text \<open>A query with one numeric predicate goes through the whole pipeline.\<close>

lemma convert_one_predicate:
  "convertToQueryTemplate catalogue_lib query_one_predicate =
     Inr (RET_CONVERT_QUERY_OK [''l_quantity'']
            ''SELECT * FROM lineitem WHERE l_quantity :varies'')"
  by code_simp

lemma process_one_predicate:
  "processQuery catalogue_lib (catalogue_db ''(none)'') query_one_predicate =
     ([CallFindRelation ''l_quantity'', CallGetHistogram ''lineitem'' ''l_quantity'',
       CallGetCardinality ''lineitem'',
       CallGetQEP ''SELECT * FROM lineitem WHERE l_quantity<= 0.0'',
       CallGetQEP ''SELECT * FROM lineitem WHERE l_quantity<= 11.0'',
       CallGetQEP ''SELECT * FROM lineitem WHERE l_quantity<= 22.0''],
      Inr (AllQEPs [example_qep ''Index Scan'', example_qep ''Seq Scan''] [''l_quantity'']
             [1, 2, 2]))"
  by code_simp

lemma process_three_predicates:
  "processQuery catalogue_lib (catalogue_db ''(none)'') query_three_predicates =
     ([CallFindRelation ''l_quantity'', CallGetHistogram ''lineitem'' ''l_quantity'',
       CallGetCardinality ''lineitem'',
       CallFindRelation ''l_discount'', CallGetHistogram ''lineitem'' ''l_discount'',
       CallGetCardinality ''lineitem'',
       CallFindRelation ''l_tax'', CallGetHistogram ''lineitem'' ''l_tax'',
       CallGetCardinality ''lineitem''],
      Inl SystemExit)"
  by code_simp

text \<open>
  Claim C6 as stated fails: with three predicate attributes the sampler performs the
  statistics lookups of all three and then calls \<^verbatim>\<open>quit()\<close>; what reaches the caller
  is SystemExit, which ends the process.
\<close>

theorem too_many_predicates_counterexample:
  "processQuery catalogue_lib (catalogue_db ''(none)'') query_three_predicates =
     ([CallFindRelation ''l_quantity'', CallGetHistogram ''lineitem'' ''l_quantity'',
       CallGetCardinality ''lineitem'',
       CallFindRelation ''l_discount'', CallGetHistogram ''lineitem'' ''l_discount'',
       CallGetCardinality ''lineitem'',
       CallFindRelation ''l_tax'', CallGetHistogram ''lineitem'' ''l_tax'',
       CallGetCardinality ''lineitem''],
      Inl SystemExit)"
  by (rule process_three_predicates)

lemma sample_attribute_calls:
  "sample_attribute L C a calls = (calls', r) \<Longrightarrow>
   list_all (\<lambda>c. \<not> is_engine_call c) calls \<Longrightarrow> list_all (\<lambda>c. \<not> is_engine_call c) calls'"
  by (auto simp: sample_attribute_def Let_def is_engine_call_def split: sum.splits)

lemma sample_attribute_result:
  "snd (sample_attribute L C a calls) = snd (sample_attribute L C a [])"
  by (auto simp: sample_attribute_def Let_def split: sum.splits)

lemma predicate_values_loop_calls:
  "predicate_values_loop L C attrs index dims calls = (calls', r) \<Longrightarrow>
   list_all (\<lambda>c. \<not> is_engine_call c) calls \<Longrightarrow> list_all (\<lambda>c. \<not> is_engine_call c) calls'"
proof (induction attrs arbitrary: index dims calls)
  case Nil
  then show ?case by simp
next
  case (Cons a attrs)
  obtain d1 d2 where dims: "dims = (d1, d2)" by (cases dims)
  obtain c1 r1 where s: "sample_attribute L C a calls = (c1, r1)"
    by (cases "sample_attribute L C a calls")
  from sample_attribute_calls[OF s Cons.prems(2)]
  have c1: "list_all (\<lambda>c. \<not> is_engine_call c) c1" .
  show ?case
  proof (cases r1)
    case (Inl e)
    with Cons.prems(1) s dims c1 show ?thesis by simp
  next
    case (Inr selVals)
    consider "index = 0" | "index = 1" | "index \<noteq> 0 \<and> index \<noteq> 1" by blast
    then show ?thesis
    proof cases
      case 1
      with Cons.prems(1) s dims Inr have
        "predicate_values_loop L C attrs (index + 1) (d1 @ selVals, d2) c1 = (calls', r)"
        by simp
      from Cons.IH[OF this c1] show ?thesis .
    next
      case 2
      with Cons.prems(1) s dims Inr have
        "predicate_values_loop L C attrs (index + 1) (d1, d2 @ selVals) c1 = (calls', r)"
        by simp
      from Cons.IH[OF this c1] show ?thesis .
    next
      case 3
      with Cons.prems(1) s dims Inr c1 show ?thesis by simp
    qed
  qed
qed

lemma predicate_values_loop_exit:
  "predicate_values_loop L C attrs index dims calls = (calls', r) \<Longrightarrow>
   index \<le> 2 \<Longrightarrow> 2 < index + length attrs \<Longrightarrow>
   (\<exists>e. r = Inl e) \<and>
   (list_all (sampling_succeeds L C) (take (3 - index) attrs) \<longrightarrow> r = Inl SystemExit)"
proof (induction attrs arbitrary: index dims calls)
  case Nil
  then show ?case by simp
next
  case (Cons a attrs)
  obtain d1 d2 where dims: "dims = (d1, d2)" by (cases dims)
  obtain c1 r1 where s: "sample_attribute L C a calls = (c1, r1)"
    by (cases "sample_attribute L C a calls")
  have r1: "snd (sample_attribute L C a []) = r1"
    using sample_attribute_result[of L C a calls] s by simp
  show ?case
  proof (cases r1)
    case (Inl e)
    with Cons.prems s dims r1 show ?thesis
      by (cases "3 - index") (auto simp: sampling_succeeds_def)
  next
    case (Inr selVals)
    consider "index = 0" | "index = 1" | "index \<noteq> 0 \<and> index \<noteq> 1" by blast
    then show ?thesis
    proof cases
      case 1
      with Cons.prems(1) s dims Inr have
        "predicate_values_loop L C attrs (index + 1) (d1 @ selVals, d2) c1 = (calls', r)"
        by simp
      from Cons.IH[OF this] Cons.prems(2,3) 1 show ?thesis
        by (simp add: numeral_3_eq_3)
    next
      case 2
      with Cons.prems(1) s dims Inr have
        "predicate_values_loop L C attrs (index + 1) (d1, d2 @ selVals) c1 = (calls', r)"
        by simp
      from Cons.IH[OF this] Cons.prems(2,3) 2 show ?thesis
        by (simp add: numeral_3_eq_3 numeral_2_eq_2)
    next
      case 3
      with Cons.prems(1) s dims Inr have "r = Inl SystemExit" by auto
      then show ?thesis by simp
    qed
  qed
qed

text \<open>
  Claim C6, as amended. When the template conversion yields more than two predicate
  attributes, \<^verbatim>\<open>processQuery\<close> returns no result: it raises, and no call of the
  plan-producing engine is issued before that; when the lookups of the first three
  attributes succeed, what it raises is the SystemExit of \<^verbatim>\<open>quit()\<close>.
\<close>

theorem too_many_predicates_exit:
  assumes "convertToQueryTemplate L query = Inr (RET_CONVERT_QUERY_OK attrs templateQuery)"
    and "2 < length attrs"
    and "processQuery L C query = (calls, r)"
  shows "(\<exists>e. r = Inl e) \<and> list_all (\<lambda>c. \<not> is_engine_call c) calls \<and>
         (list_all (sampling_succeeds L C) (take 3 attrs) \<longrightarrow> r = Inl SystemExit)"
proof -
  obtain c1 r1 where p: "predicate_values_loop L C attrs 0 ([], []) [] = (c1, r1)"
    by (cases "predicate_values_loop L C attrs 0 ([], []) []")
  from predicate_values_loop_exit[OF p] assms(2) obtain e where
    e: "r1 = Inl e" and x: "list_all (sampling_succeeds L C) (take 3 attrs) \<longrightarrow> r1 = Inl SystemExit"
    by auto
  from predicate_values_loop_calls[OF p] have c: "list_all (\<lambda>c. \<not> is_engine_call c) c1" by simp
  from assms(1,3) p e have "calls = c1" "r = Inl e"
    by (simp_all add: processQuery_def generatePredicateValues_def)
  with e x c show ?thesis by simp
qed


lemma convert_three_predicates:
  "convertToQueryTemplate catalogue_lib query_three_predicates =
     Inr (RET_CONVERT_QUERY_OK [''l_quantity'', ''l_discount'', ''l_tax'']
       ''SELECT * FROM lineitem WHERE l_quantity :varies AND l_discount :varies AND l_tax :varies'')"
  by code_simp

lemma sampling_three_predicates:
  "list_all (sampling_succeeds catalogue_lib (catalogue_db ''(none)''))
     (take 3 [''l_quantity'', ''l_discount'', ''l_tax''])"
  by code_simp

theorem too_many_predicates_exit_witness:
  "2 < length [''l_quantity'', ''l_discount'', ''l_tax''] \<and>
   list_all (sampling_succeeds catalogue_lib (catalogue_db ''(none)''))
     (take 3 [''l_quantity'', ''l_discount'', ''l_tax'']) \<and>
   snd (processQuery catalogue_lib (catalogue_db ''(none)'') query_three_predicates) =
     Inl SystemExit \<and>
   list_all (\<lambda>c. \<not> is_engine_call c)
     (fst (processQuery catalogue_lib (catalogue_db ''(none)'') query_three_predicates))"
proof -
  have l: "2 < length [''l_quantity'', ''l_discount'', ''l_tax'']" by simp
  from too_many_predicates_exit[OF convert_three_predicates l process_three_predicates]
    sampling_three_predicates l
  show ?thesis by (simp add: process_three_predicates)
qed

lemma fetch_qep_none: "getQEP C q = PNone \<Longrightarrow> fetch_qep C q = Inl TypeError"
  by (simp add: fetch_qep_def)

lemma retrieve_loop_1D_append:
  "retrieve_loop_1D L C query (xs @ ys) index st calls =
     (case retrieve_loop_1D L C query xs index st calls of
        (calls', Inl e) \<Rightarrow> (calls', Inl e)
      | (calls', Inr st') \<Rightarrow> retrieve_loop_1D L C query ys (index + length xs) st' calls')"
proof (induction xs arbitrary: index st calls)
  case Nil
  then show ?case by simp
next
  case (Cons x xs)
  show ?case
    by (simp add: Let_def Cons.IH split: sum.splits)
qed

lemma retrieve_inner_2D_append:
  "retrieve_inner_2D L C query v1 (xs @ ys) index index2 st calls =
     (case retrieve_inner_2D L C query v1 xs index index2 st calls of
        (calls', Inl e) \<Rightarrow> (calls', Inl e)
      | (calls', Inr st') \<Rightarrow>
          retrieve_inner_2D L C query v1 ys index (index2 + length xs) st' calls')"
proof (induction xs arbitrary: index2 st calls)
  case Nil
  then show ?case by simp
next
  case (Cons x xs)
  show ?case
    by (simp add: Let_def Cons.IH split: sum.splits)
qed

lemma retrieve_outer_2D_append:
  "retrieve_outer_2D L C query (xs @ ys) d2 index st calls =
     (case retrieve_outer_2D L C query xs d2 index st calls of
        (calls', Inl e) \<Rightarrow> (calls', Inl e)
      | (calls', Inr st') \<Rightarrow> retrieve_outer_2D L C query ys d2 (index + length xs) st' calls')"
proof (induction xs arbitrary: index st calls)
  case Nil
  then show ?case by simp
next
  case (Cons x xs)
  show ?case
    by (simp add: Cons.IH split: sum.splits prod.splits)
qed

text \<open>
  Claim C8, as amended. When the enumeration has completed the grid points before a
  point and the engine round-trip of that point fails, the enumeration returns that
  error and no distinct plans, and the last call of its log is the query of the failing
  point: no later point is queried. An engine failure reaches the enumerator as the
  \<^verbatim>\<open>None\<close> returned by \<^verbatim>\<open>getQEP\<close>, and indexing it raises TypeError.
\<close>

theorem engine_failure_aborts:
  "(retrieveQEPs_OneDimension L C query pre = (calls0, Inr st0) \<and>
    fetch_qep C (point_query_1D L query v) = Inl e \<longrightarrow>
      retrieveQEPs_OneDimension L C query (pre @ v # post) =
        (calls0 @ [CallGetQEP (point_query_1D L query v)], Inl e)) \<and>
   (retrieveQEPs_TwoDimensions L C query pre1 (pre2 @ v2 # post2) = (calls0, Inr st0) \<and>
    retrieve_inner_2D L C query v1 pre2 (length pre1) 0 st0 calls0 = (calls1, Inr st1) \<and>
    fetch_qep C (point_query_2D L query (v1, v2)) = Inl e \<longrightarrow>
      retrieveQEPs_TwoDimensions L C query (pre1 @ v1 # post1) (pre2 @ v2 # post2) =
        (calls1 @ [CallGetQEP (point_query_2D L query (v1, v2))], Inl e)) \<and>
   (getQEP C q = PNone \<longrightarrow> fetch_qep C q = Inl TypeError)"
proof (intro conjI impI)
  assume a: "retrieveQEPs_OneDimension L C query pre = (calls0, Inr st0) \<and>
    fetch_qep C (point_query_1D L query v) = Inl e"
  then show "retrieveQEPs_OneDimension L C query (pre @ v # post) =
        (calls0 @ [CallGetQEP (point_query_1D L query v)], Inl e)"
    by (simp add: retrieveQEPs_OneDimension_def retrieve_loop_1D_append Let_def
        point_query_1D_def)
next
  assume a: "retrieveQEPs_TwoDimensions L C query pre1 (pre2 @ v2 # post2) = (calls0, Inr st0) \<and>
    retrieve_inner_2D L C query v1 pre2 (length pre1) 0 st0 calls0 = (calls1, Inr st1) \<and>
    fetch_qep C (point_query_2D L query (v1, v2)) = Inl e"
  then have "retrieve_inner_2D L C query v1 (pre2 @ v2 # post2) (length pre1) 0 st0 calls0 =
      (calls1 @ [CallGetQEP (point_query_2D L query (v1, v2))], Inl e)"
    by (simp add: retrieve_inner_2D_append Let_def point_query_2D_def)
  with a show "retrieveQEPs_TwoDimensions L C query (pre1 @ v1 # post1) (pre2 @ v2 # post2) =
        (calls1 @ [CallGetQEP (point_query_2D L query (v1, v2))], Inl e)"
    by (simp add: retrieveQEPs_TwoDimensions_def retrieve_outer_2D_append)
next
  assume "getQEP C q = PNone"
  then show "fetch_qep C q = Inl TypeError" by (rule fetch_qep_none)
qed


lemma failing_run_second_point:
  "retrieveQEPs_OneDimension catalogue_lib (catalogue_db ''<= 11.0'') template_1D [0, 11, 22] =
     ([CallGetQEP ''SELECT * FROM lineitem WHERE l_quantity<= 0.0'',
       CallGetQEP ''SELECT * FROM lineitem WHERE l_quantity<= 11.0''],
      Inl TypeError)"
  by code_simp

lemma failing_run_first_point:
  "retrieveQEPs_OneDimension catalogue_lib (catalogue_db ''<= 0.0'') template_1D [0, 11, 22] =
     ([CallGetQEP ''SELECT * FROM lineitem WHERE l_quantity<= 0.0''], Inl TypeError)"
  by code_simp

lemma prefix_run_1D:
  "retrieveQEPs_OneDimension catalogue_lib (catalogue_db ''<= 11.0'') template_1D [0] =
     ([CallGetQEP ''SELECT * FROM lineitem WHERE l_quantity<= 0.0''],
      Inr ([1], [example_qep ''Index Scan'']))"
  by code_simp

lemma failing_fetch_1D:
  "fetch_qep (catalogue_db ''<= 11.0'') (point_query_1D catalogue_lib template_1D 11) =
     Inl TypeError"
  by code_simp

lemma prefix_rows_2D:
  "retrieveQEPs_TwoDimensions catalogue_lib (catalogue_db ''<= 11.0'') template_2D []
     ([0] @ 11 # []) = ([], Inr ([], []))"
  by code_simp

lemma prefix_row_2D:
  "retrieve_inner_2D catalogue_lib (catalogue_db ''<= 11.0'') template_2D 0 [0] (length ([] :: rat list)) 0
     ([], []) [] =
     ([CallGetQEP ''SELECT * FROM lineitem WHERE l_quantity<= 0.0 AND l_tax<= 0.0''],
      Inr ([1], [example_qep ''Index Scan'']))"
  by code_simp

lemma failing_fetch_2D:
  "fetch_qep (catalogue_db ''<= 11.0'') (point_query_2D catalogue_lib template_2D (0, 11)) =
     Inl TypeError"
  by code_simp

lemma failing_getQEP:
  "getQEP (catalogue_db ''<= 11.0'') ''SELECT * FROM lineitem WHERE l_quantity<= 11.0'' = PNone"
  by code_simp

theorem engine_failure_aborts_witness:
  "retrieveQEPs_OneDimension catalogue_lib (catalogue_db ''<= 11.0'') template_1D
     ([0] @ 11 # [22]) =
     ([CallGetQEP ''SELECT * FROM lineitem WHERE l_quantity<= 0.0''] @
      [CallGetQEP (point_query_1D catalogue_lib template_1D 11)], Inl TypeError) \<and>
   retrieveQEPs_TwoDimensions catalogue_lib (catalogue_db ''<= 11.0'') template_2D
     ([] @ 0 # [11]) ([0] @ 11 # []) =
     ([CallGetQEP ''SELECT * FROM lineitem WHERE l_quantity<= 0.0 AND l_tax<= 0.0''] @
      [CallGetQEP (point_query_2D catalogue_lib template_2D (0, 11))], Inl TypeError) \<and>
   fetch_qep (catalogue_db ''<= 11.0'') ''SELECT * FROM lineitem WHERE l_quantity<= 11.0'' =
     Inl TypeError"
proof (intro conjI)
  show "retrieveQEPs_OneDimension catalogue_lib (catalogue_db ''<= 11.0'') template_1D
     ([0] @ 11 # [22]) =
     ([CallGetQEP ''SELECT * FROM lineitem WHERE l_quantity<= 0.0''] @
      [CallGetQEP (point_query_1D catalogue_lib template_1D 11)], Inl TypeError)"
    using engine_failure_aborts[THEN conjunct1, rule_format, OF conjI,
        OF prefix_run_1D failing_fetch_1D] .
  show "retrieveQEPs_TwoDimensions catalogue_lib (catalogue_db ''<= 11.0'') template_2D
     ([] @ 0 # [11]) ([0] @ 11 # []) =
     ([CallGetQEP ''SELECT * FROM lineitem WHERE l_quantity<= 0.0 AND l_tax<= 0.0''] @
      [CallGetQEP (point_query_2D catalogue_lib template_2D (0, 11))], Inl TypeError)"
    using engine_failure_aborts[THEN conjunct2, THEN conjunct1, rule_format,
        OF conjI[OF prefix_rows_2D conjI[OF prefix_row_2D failing_fetch_2D]]] .
  show "fetch_qep (catalogue_db ''<= 11.0'') ''SELECT * FROM lineitem WHERE l_quantity<= 11.0'' =
     Inl TypeError"
    using engine_failure_aborts[THEN conjunct2, THEN conjunct2, rule_format, OF failing_getQEP] .
qed

text \<open>
  Claim C8 as stated fails in one part: the error that reaches the caller does not
  identify the grid point or the query. An engine that fails on the first point and one
  that fails on the second give the caller the same TypeError.
\<close>

theorem engine_failure_context_counterexample:
  "snd (retrieveQEPs_OneDimension catalogue_lib (catalogue_db ''<= 0.0'') template_1D
          [0, 11, 22]) = Inl TypeError \<and>
   snd (retrieveQEPs_OneDimension catalogue_lib (catalogue_db ''<= 11.0'') template_1D
          [0, 11, 22]) = Inl TypeError \<and>
   fst (retrieveQEPs_OneDimension catalogue_lib (catalogue_db ''<= 0.0'') template_1D
          [0, 11, 22]) = [CallGetQEP ''SELECT * FROM lineitem WHERE l_quantity<= 0.0''] \<and>
   fst (retrieveQEPs_OneDimension catalogue_lib (catalogue_db ''<= 11.0'') template_1D
          [0, 11, 22]) =
     [CallGetQEP ''SELECT * FROM lineitem WHERE l_quantity<= 0.0'',
      CallGetQEP ''SELECT * FROM lineitem WHERE l_quantity<= 11.0'']"
  by (simp add: failing_run_first_point failing_run_second_point)

end
